theory Spec2Isabelle
  imports Complex_Main
begin

section \<open>Python values\<close>

text \<open>
  The module \<open>lightning_pose_app/backend/video.py\<close> computes with Python and numpy
  floats, which are IEEE 754 binary64 numbers. A float is modelled as a real number or
  the value not-a-number, and the result of an arithmetic operation on floats is the
  exact result rounded to the nearest binary64 number (\<open>round_double\<close> below). The
  infinities are outside the model, and so is a result too large for the format.
  Python integers are unbounded, hence \<open>int\<close>. An exception is a value of \<open>py_error\<close>,
  and a function that can raise returns a sum whose left summand is the exception.
\<close>

datatype py_error =
  ValueError | OverflowError | ZeroDivisionError | UnboundLocalError
  | FileNotFoundError | ParserError | IsADirectoryError | NotADirectoryError
  | SameFileError

datatype pyfloat = NaN | Val real

text \<open>\<open>int(x)\<close> on a float truncates towards zero.\<close>

definition py_int :: "real \<Rightarrow> int" where
  "py_int x = (if 0 \<le> x then \<lfloor>x\<rfloor> else \<lceil>x\<rceil>)"

text \<open>The nearest integer, a tie going to the even neighbour.\<close>

definition round_half_even :: "real \<Rightarrow> int" where
  "round_half_even y =
     (let f = \<lfloor>y\<rfloor>; d = y - of_int f
      in if d < 1 / 2 then f
         else if 1 / 2 < d then f + 1
         else if even f then f else f + 1)"

text \<open>
  Rounding to binary64. A positive real is written \<open>m * 2 ^ e\<close> with a mantissa \<open>m\<close>
  between \<open>2 ^ 52\<close> and \<open>2 ^ 53\<close>, the exponent \<open>e\<close> staying within the range of the
  format (from \<open>-1074\<close>, where the subnormal numbers lie, to 971); the mantissa is then
  rounded to the nearest integer, a tie going to the even one.
\<close>

function scale_down :: "real \<Rightarrow> int \<Rightarrow> real \<times> int" where
  "scale_down m e = (if 2 ^ 53 \<le> m \<and> e < 971 then scale_down (m / 2) (e + 1) else (m, e))"
  by pat_completeness auto
termination
  by (relation "measure (\<lambda>(m, e). nat (971 - e))") auto

function scale_up :: "real \<Rightarrow> int \<Rightarrow> real \<times> int" where
  "scale_up m e = (if m < 2 ^ 52 \<and> - 1074 < e then scale_up (2 * m) (e - 1) else (m, e))"
  by pat_completeness auto
termination
  by (relation "measure (\<lambda>(m, e). nat (e + 1074))") auto

definition normalise :: "real \<Rightarrow> real \<times> int" where
  "normalise x = (if 2 ^ 53 \<le> x then scale_down x 0 else scale_up x 0)"

definition round_double :: "real \<Rightarrow> real" where
  "round_double x =
     (if x = 0 then 0
      else (case normalise \<bar>x\<bar> of
              (m, e) \<Rightarrow> sgn x * of_int (round_half_even m) * 2 powi e))"

text \<open>
  The conversion of an integer to a float, and the product, the quotient and the
  difference of two floats.
\<close>

definition float_of_int :: "int \<Rightarrow> real" where
  "float_of_int n = round_double (of_int n)"

definition float_mul :: "real \<Rightarrow> real \<Rightarrow> real" where
  "float_mul a b = round_double (a * b)"

definition float_div :: "real \<Rightarrow> real \<Rightarrow> real" where
  "float_div a b = round_double (a / b)"

definition float_sub :: "real \<Rightarrow> real \<Rightarrow> real" where
  "float_sub a b = round_double (a - b)"

text \<open>
  \<open>round(x, 4)\<close>: the float nearest to the multiple of \<open>10 ^ -4\<close> that is nearest to
  \<open>x\<close>, a tie between two multiples going to the even one.
\<close>

definition round4 :: "real \<Rightarrow> real" where
  "round4 x = round_double (of_int (round_half_even (x * 10000)) / 10000)"

text \<open>\<open>x < t\<close> on floats: a comparison with not-a-number is false.\<close>

fun lt_float :: "pyfloat \<Rightarrow> real \<Rightarrow> bool" where
  "lt_float NaN t = False"
| "lt_float (Val x) t = (x < t)"

section \<open>Paths\<close>

text \<open>\<open>os.path.basename\<close>, \<open>os.path.dirname\<close> and two-argument \<open>os.path.join\<close> of posixpath.\<close>

definition is_slash :: "char \<Rightarrow> bool" where
  "is_slash c = (c = CHR ''/'')"

definition basename :: "string \<Rightarrow> string" where
  "basename p = rev (takeWhile (\<lambda>c. \<not> is_slash c) (rev p))"

definition dirname :: "string \<Rightarrow> string" where
  "dirname p =
     (let head = rev (dropWhile (\<lambda>c. \<not> is_slash c) (rev p))
      in if head \<noteq> [] \<and> \<not> list_all is_slash head
         then rev (dropWhile is_slash (rev head))
         else head)"

definition path_join :: "string \<Rightarrow> string \<Rightarrow> string" where
  "path_join a b =
     (if b \<noteq> [] \<and> is_slash (hd b) then b
      else if a = [] \<or> is_slash (last a) then a @ b
      else a @ ''/'' @ b)"

text \<open>
  \<open>s.replace(old, new)\<close> for a non-empty \<open>old\<close>: the occurrences are replaced from
  the left and do not overlap. The counter is the number of characters of a matched
  occurrence still to be skipped.
\<close>

fun replace_from :: "string \<Rightarrow> string \<Rightarrow> nat \<Rightarrow> string \<Rightarrow> string" where
  "replace_from old new k [] = []"
| "replace_from old new (Suc k) (c # cs) = replace_from old new k cs"
| "replace_from old new 0 (c # cs) =
     (if take (length old) (c # cs) = old
      then new @ replace_from old new (length old - 1) cs
      else c # replace_from old new 0 cs)"

definition py_replace :: "string \<Rightarrow> string \<Rightarrow> string \<Rightarrow> string" where
  "py_replace s old new = replace_from old new 0 s"

section \<open>Videos, captures and files\<close>

text \<open>
  A decoded frame is a grid of pixels, rows first, each pixel its three channel
  values. A video file carries the two properties the code reads from OpenCV
  (frames per second and the frame count of the container, both returned as floats)
  and the frames a reader can decode; the frame count of the container need not be
  the number of decodable frames. All frames of one stream have the same size. A
  file system maps a path to what is there: a video, a table of predictions, some
  other file, or a directory. Links and permissions are not modelled.
\<close>

type_synonym frame = "nat list list list"

record video =
  v_fps :: real
  v_frame_count :: real
  v_frames :: "frame list"

datatype fs_entry = VideoFile video | CsvFile "pyfloat list list" | OtherFile | Directory

type_synonym filesys = "string \<Rightarrow> fs_entry option"

text \<open>
  \<open>cv2.VideoCapture(path)\<close> never raises: a missing file or one that is no video gives
  a capture that is not opened. A capture has a read position; \<open>cap.get\<close> of a
  property answers \<open>0.0\<close> on a capture that is not opened.
\<close>

record capture =
  cap_video :: "video option"
  cap_pos :: int

definition VideoCapture :: "filesys \<Rightarrow> string \<Rightarrow> capture" where
  "VideoCapture fs path =
     (case fs path of
        Some (VideoFile v) \<Rightarrow> \<lparr>cap_video = Some v, cap_pos = 0\<rparr>
      | _ \<Rightarrow> \<lparr>cap_video = None, cap_pos = 0\<rparr>)"

definition isOpened :: "capture \<Rightarrow> bool" where
  "isOpened cap = (cap_video cap \<noteq> None)"

definition get_fps :: "capture \<Rightarrow> real" where
  "get_fps cap = (case cap_video cap of None \<Rightarrow> 0 | Some v \<Rightarrow> v_fps v)"

definition get_frame_count :: "capture \<Rightarrow> real" where
  "get_frame_count cap = (case cap_video cap of None \<Rightarrow> 0 | Some v \<Rightarrow> v_frame_count v)"

text \<open>\<open>cap.set(1, i)\<close> moves the read position to frame \<open>i\<close>.\<close>

definition cap_set :: "capture \<Rightarrow> int \<Rightarrow> capture" where
  "cap_set cap i = cap\<lparr>cap_pos := i\<rparr>"

text \<open>
  \<open>cap.read()\<close>: the frame at the read position, which then advances; no frame when
  the capture is not opened or the position is outside the stream.
\<close>

definition cap_read :: "capture \<Rightarrow> frame option \<times> capture" where
  "cap_read cap =
     (case cap_video cap of
        None \<Rightarrow> (None, cap)
      | Some v \<Rightarrow>
          if 0 \<le> cap_pos cap \<and> cap_pos cap < int (length (v_frames v))
          then (Some (v_frames v ! nat (cap_pos cap)), cap\<lparr>cap_pos := cap_pos cap + 1\<rparr>)
          else (None, cap))"

text \<open>\<open>cv2.cvtColor(frame, cv2.COLOR_BGR2RGB)\<close> reverses the channels of every pixel.\<close>

definition cvtColor_BGR2RGB :: "frame \<Rightarrow> frame" where
  "cvtColor_BGR2RGB f = map (map rev) f"

section \<open>Loading frames by index: \<open>get_frames_from_idxs\<close>\<close>

definition frame_height :: "frame \<Rightarrow> nat" where
  "frame_height f = length f"

definition frame_width :: "frame \<Rightarrow> nat" where
  "frame_width f = (case f of [] \<Rightarrow> 0 | r # _ \<Rightarrow> length r)"

text \<open>\<open>frame_rgb.transpose(2, 0, 1)\<close>: from rows of pixels to one plane per channel.\<close>

definition transpose_201 :: "frame \<Rightarrow> frame" where
  "transpose_201 f = map (\<lambda>c. map (map (\<lambda>px. px ! c)) f) [0, 1, 2]"

text \<open>One entry of \<open>np.zeros((n_frames, 3, height, width))\<close>.\<close>

definition zeros_frame :: "nat \<Rightarrow> nat \<Rightarrow> frame" where
  "zeros_frame height width = replicate 3 (replicate height (replicate width 0))"

text \<open>\<open>np.diff(idxs)\<close> and the test \<open>np.sum(np.diff(idxs)) == len(idxs) - 1\<close>.\<close>

definition np_diff :: "int list \<Rightarrow> int list" where
  "np_diff xs = map2 (\<lambda>a b. b - a) xs (tl xs)"

definition is_contiguous :: "int list \<Rightarrow> bool" where
  "is_contiguous idxs = (sum_list (np_diff idxs) = int (length idxs) - 1)"

text \<open>
  The \<open>for fr, i in enumerate(idxs)\<close> loop. The local variable \<open>frames\<close> is unbound
  (\<open>None\<close>) until the first frame has been read; a failed read leaves the loop.
\<close>

fun frames_loop ::
  "bool \<Rightarrow> nat \<Rightarrow> capture \<Rightarrow> frame list option \<Rightarrow> nat \<Rightarrow> int list
     \<Rightarrow> frame list option \<times> capture" where
  "frames_loop contig n_frames cap frames fr [] = (frames, cap)"
| "frames_loop contig n_frames cap frames fr (i # rest) =
     (let cap1 = (if fr = 0 \<or> \<not> contig then cap_set cap i else cap)
      in case cap_read cap1 of
           (None, cap2) \<Rightarrow> (frames, cap2)
         | (Some frame, cap2) \<Rightarrow>
             (let frame_rgb = cvtColor_BGR2RGB frame;
                  frames1 =
                    (if fr = 0
                     then Some (replicate n_frames
                            (zeros_frame (frame_height frame_rgb) (frame_width frame_rgb)))
                     else frames)
              in case frames1 of
                   None \<Rightarrow> (None, cap2)
                 | Some buf \<Rightarrow>
                     frames_loop contig n_frames cap2
                       (Some (buf[fr := transpose_201 frame_rgb])) (Suc fr) rest))"

text \<open>\<open>return frames\<close> raises \<open>UnboundLocalError\<close> when the variable was never bound.\<close>

definition get_frames_from_idxs :: "capture \<Rightarrow> int list \<Rightarrow> (py_error + frame list) \<times> capture" where
  "get_frames_from_idxs cap idxs =
     (case frames_loop (is_contiguous idxs) (length idxs) cap None 0 idxs of
        (None, cap') \<Rightarrow> (Inl UnboundLocalError, cap')
      | (Some frames, cap') \<Rightarrow> (Inr frames, cap'))"

section \<open>Reading every n-th frame: \<open>read_nth_frames\<close>\<close>

text \<open>
  The state of the reading loop: the list \<open>frames\<close>, \<open>frame_counter\<close>, and the attribute
  \<open>work.progress\<close> (\<open>None\<close> when \<open>work\<close> is \<open>None\<close>). \<open>rd_written\<close> records, in order, every
  value the loop has assigned to \<open>work.progress\<close>. \<open>cv2.resize\<close> is a parameter of the
  model.
\<close>

record reader =
  rd_frames :: "frame list"
  rd_counter :: int
  rd_progress :: "real option"
  rd_written :: "real list"

text \<open>Line 313: \<open>progress = frame_counter / frame_total * 100.0\<close>.\<close>

definition progress_percent :: "int \<Rightarrow> real \<Rightarrow> real" where
  "progress_percent frame_counter frame_total =
     float_mul (float_div (float_of_int frame_counter) frame_total) 100"

text \<open>Lines 317 to 320: the value assigned to \<open>work.progress\<close>.\<close>

definition reported_value :: "real \<Rightarrow> real" where
  "reported_value progress = (if 100 < progress then 100 else round4 progress)"

definition report_progress :: "real \<Rightarrow> real \<Rightarrow> reader \<Rightarrow> reader" where
  "report_progress progress progress_delta st =
     (case rd_progress st of
        None \<Rightarrow> st
      | Some wp \<Rightarrow>
          if progress_delta \<le> float_sub (round4 progress) wp
          then (let v = reported_value progress
                in st\<lparr>rd_progress := Some v, rd_written := rd_written st @ [v]\<rparr>)
          else st)"

text \<open>
  The body of the loop for a frame that was read. \<open>frame_counter % n\<close> and the division
  by \<open>frame_total\<close> raise \<open>ZeroDivisionError\<close> on a zero divisor.
\<close>

definition read_frame ::
  "(frame \<Rightarrow> nat \<Rightarrow> frame) \<Rightarrow> int \<Rightarrow> nat \<Rightarrow> real \<Rightarrow> real \<Rightarrow> frame \<Rightarrow> reader
     \<Rightarrow> py_error + reader" where
  "read_frame resize n resize_dims progress_delta frame_total frame st =
     (if n = 0 then Inl ZeroDivisionError
      else
        (let st1 = (if rd_counter st mod n = 0
                    then st\<lparr>rd_frames :=
                           rd_frames st @ [cvtColor_BGR2RGB (resize frame resize_dims)]\<rparr>
                    else st);
             st2 = st1\<lparr>rd_counter := rd_counter st1 + 1\<rparr>
         in if frame_total = 0 then Inl ZeroDivisionError
            else Inr (report_progress (progress_percent (rd_counter st2) frame_total)
                        progress_delta st2)))"

text \<open>
  \<open>while cap.isOpened(): ret, frame = cap.read(); if ret: ... else: break\<close>. The result
  is the exception raised, if any, and the state reached.
\<close>

function read_loop ::
  "(frame \<Rightarrow> nat \<Rightarrow> frame) \<Rightarrow> int \<Rightarrow> nat \<Rightarrow> real \<Rightarrow> real \<Rightarrow> capture \<Rightarrow> reader
     \<Rightarrow> py_error option \<times> reader" where
  "read_loop resize n resize_dims progress_delta frame_total cap st =
     (if isOpened cap
      then (case cap_read cap of
              (None, cap') \<Rightarrow> (None, st)
            | (Some frame, cap') \<Rightarrow>
                (case read_frame resize n resize_dims progress_delta frame_total frame st of
                   Inl e \<Rightarrow> (Some e, st)
                 | Inr st' \<Rightarrow>
                     read_loop resize n resize_dims progress_delta frame_total cap' st'))
      else (None, st))"
  by pat_completeness auto
termination
  by (relation "measure (\<lambda>(resize, n, resize_dims, progress_delta, frame_total, cap, st).
         case cap_video cap of
           None \<Rightarrow> 0
         | Some v \<Rightarrow> nat (int (length (v_frames v)) - cap_pos cap))")
     (auto simp: cap_read_def split: option.splits if_splits)

text \<open>
  \<open>read_nth_frames\<close> opens the file itself. When the capture is not opened it logs an
  error (the third component of the result) and goes on: the loop is not entered and
  \<open>np.array([])\<close> is returned. The result is the exception raised inside the loop, if
  any, the final state of the loop, and whether the error was logged.
\<close>

definition read_nth_frames ::
  "(frame \<Rightarrow> nat \<Rightarrow> frame) \<Rightarrow> filesys \<Rightarrow> string \<Rightarrow> int \<Rightarrow> nat \<Rightarrow> real \<Rightarrow> real option
     \<Rightarrow> py_error option \<times> reader \<times> bool" where
  "read_nth_frames resize fs video_file n resize_dims progress_delta work =
     (let cap = VideoCapture fs video_file;
          error_logged = (\<not> isOpened cap);
          frame_total = get_frame_count cap;
          (raised, st) =
            read_loop resize n resize_dims progress_delta frame_total cap
              \<lparr>rd_frames = [], rd_counter = 0, rd_progress = work, rd_written = []\<rparr>
      in (raised, st, error_logged))"

definition written :: "py_error option \<times> reader \<times> bool \<Rightarrow> real list" where
  "written r = rd_written (fst (snd r))"

section \<open>Motion energy from pixels: \<open>compute_video_motion_energy\<close>\<close>

text \<open>
  \<open>np.reshape(frames, (frame_count, -1))\<close> flattens every frame; on the empty array, whose
  size is zero, numpy cannot infer the second dimension and raises \<open>ValueError\<close>. The
  pixel values are integers below 256, so the half-precision differences are exact,
  and so are the sums of their absolute values.
\<close>

definition flatten_frame :: "frame \<Rightarrow> real list" where
  "flatten_frame f = map real (concat (concat f))"

definition diff_rows :: "real list list \<Rightarrow> real list list" where
  "diff_rows batches = map2 (\<lambda>prev cur. map2 (\<lambda>p c. c - p) prev cur) batches (tl batches)"

definition compute_video_motion_energy ::
  "(frame \<Rightarrow> nat \<Rightarrow> frame) \<Rightarrow> filesys \<Rightarrow> string \<Rightarrow> nat \<Rightarrow> py_error + real list" where
  "compute_video_motion_energy resize fs video_file resize_dims =
     (case read_nth_frames resize fs video_file 1 resize_dims (1 / 2) None of
        (Some e, st, logged) \<Rightarrow> Inl e
      | (None, st, logged) \<Rightarrow>
          (let frames = rd_frames st
           in if frames = [] then Inl ValueError
              else
                (let batches = map flatten_frame frames;
                     me = replicate (length (hd batches)) 0 # diff_rows batches
                 in Inr (map (\<lambda>row. sum_list (map abs row)) me))))"

section \<open>Motion energy from predictions: \<open>compute_motion_energy_from_predection_df\<close>\<close>

text \<open>
  The data frame is the list of its rows. \<open>reshape(df.shape[0], -1, 3)\<close> groups every
  row in triples \<open>(x, y, confidence)\<close>; it raises \<open>ValueError\<close> when there is no row or
  the number of columns is no multiple of three. The norm and the mean that numpy
  computes over the keypoints are taken in exact arithmetic.
\<close>

fun triples :: "'a list \<Rightarrow> ('a \<times> 'a \<times> 'a) list option" where
  "triples [] = Some []"
| "triples (x # y # c # rest) = map_option ((#) (x, y, c)) (triples rest)"
| "triples _ = None"

fun those_rows :: "'a option list \<Rightarrow> 'a list option" where
  "those_rows [] = Some []"
| "those_rows (None # rs) = None"
| "those_rows (Some r # rs) = map_option ((#) r) (those_rows rs)"

text \<open>\<open>kps[conf2 < likelihood_thresh] = np.nan\<close> on one keypoint.\<close>

definition apply_thresh :: "real \<Rightarrow> pyfloat \<times> pyfloat \<times> pyfloat \<Rightarrow> pyfloat \<times> pyfloat" where
  "apply_thresh likelihood_thresh kp =
     (case kp of (x, y, c) \<Rightarrow> if lt_float c likelihood_thresh then (NaN, NaN) else (x, y))"

fun sub_float :: "pyfloat \<Rightarrow> pyfloat \<Rightarrow> pyfloat" where
  "sub_float (Val a) (Val b) = Val (a - b)"
| "sub_float _ _ = NaN"

fun norm2 :: "pyfloat \<Rightarrow> pyfloat \<Rightarrow> pyfloat" where
  "norm2 (Val a) (Val b) = Val (sqrt (a * a + b * b))"
| "norm2 _ _ = NaN"

text \<open>\<open>np.linalg.norm(kps[1:] - kps[:-1], axis=2)\<close> on one keypoint of two consecutive rows.\<close>

definition displacement :: "pyfloat \<times> pyfloat \<Rightarrow> pyfloat \<times> pyfloat \<Rightarrow> pyfloat" where
  "displacement prev cur =
     norm2 (sub_float (fst cur) (fst prev)) (sub_float (snd cur) (snd prev))"

text \<open>\<open>np.nanmean\<close>: the mean of the entries that are numbers, not-a-number when there is none.\<close>

fun vals :: "pyfloat list \<Rightarrow> real list" where
  "vals [] = []"
| "vals (NaN # xs) = vals xs"
| "vals (Val v # xs) = v # vals xs"

definition nanmean :: "pyfloat list \<Rightarrow> pyfloat" where
  "nanmean xs =
     (let vs = vals xs in if vs = [] then NaN else Val (sum_list vs / real (length vs)))"

definition pair_energy :: "(pyfloat \<times> pyfloat) list \<Rightarrow> (pyfloat \<times> pyfloat) list \<Rightarrow> pyfloat" where
  "pair_energy prev cur = nanmean (map2 displacement prev cur)"

definition compute_motion_energy_from_predection_df ::
  "pyfloat list list \<Rightarrow> real \<Rightarrow> py_error + pyfloat list" where
  "compute_motion_energy_from_predection_df df likelihood_thresh =
     (if df = [] then Inl ValueError
      else case those_rows (map triples df) of
             None \<Rightarrow> Inl ValueError
           | Some kps_and_conf \<Rightarrow>
               (let kps = map (map (apply_thresh likelihood_thresh)) kps_and_conf;
                    me = map2 pair_energy kps (tl kps)
                in Inr (Val 0 # me)))"

text \<open>
  The vocabulary of the specification for this estimator. A keypoint is below the
  threshold when its confidence is; the confident pairs of two consecutive rows are
  the keypoints below the threshold in neither of them; and the mean displacement of
  two rows is the mean, over their confident pairs, of the distance between the two
  positions of the keypoint.
\<close>

definition below_thresh :: "real \<Rightarrow> pyfloat \<times> pyfloat \<times> pyfloat \<Rightarrow> bool" where
  "below_thresh likelihood_thresh kp = lt_float (snd (snd kp)) likelihood_thresh"

definition keypoint_xy :: "pyfloat \<times> pyfloat \<times> pyfloat \<Rightarrow> pyfloat \<times> pyfloat" where
  "keypoint_xy kp = (fst kp, fst (snd kp))"

definition confident_pairs ::
  "real \<Rightarrow> (pyfloat \<times> pyfloat \<times> pyfloat) list \<Rightarrow> (pyfloat \<times> pyfloat \<times> pyfloat) list
     \<Rightarrow> ((pyfloat \<times> pyfloat \<times> pyfloat) \<times> (pyfloat \<times> pyfloat \<times> pyfloat)) list" where
  "confident_pairs likelihood_thresh prev cur =
     filter (\<lambda>pc. \<not> below_thresh likelihood_thresh (fst pc)
                 \<and> \<not> below_thresh likelihood_thresh (snd pc)) (zip prev cur)"

definition mean_confident_displacement ::
  "real \<Rightarrow> (pyfloat \<times> pyfloat \<times> pyfloat) list \<Rightarrow> (pyfloat \<times> pyfloat \<times> pyfloat) list \<Rightarrow> pyfloat" where
  "mean_confident_displacement likelihood_thresh prev cur =
     nanmean (map (\<lambda>pc. displacement (keypoint_xy (fst pc)) (keypoint_xy (snd pc)))
                (confident_pairs likelihood_thresh prev cur))"

section \<open>The window of highest motion\<close>

text \<open>
  \<open>rolling(window=w, center=False).mean()\<close>: the entry at index \<open>i\<close> is the mean of the
  \<open>w\<close> entries ending at \<open>i\<close>, and not-a-number when fewer than \<open>w\<close> of them exist or
  one of them is not-a-number (pandas asks for \<open>w\<close> observations); a window of width
  zero has no observation. A negative window is refused with \<open>ValueError\<close>. The sum of
  a window is taken exactly, as it is for the whole numbers of the pixel differences,
  and divided as a float.
\<close>

definition window_mean :: "nat \<Rightarrow> pyfloat list \<Rightarrow> pyfloat" where
  "window_mean w xs =
     (if w = 0 \<or> length xs < w \<or> length (vals xs) < w then NaN
      else Val (float_div (sum_list (vals xs)) (float_of_int (int w))))"

definition rolling_mean :: "nat \<Rightarrow> pyfloat list \<Rightarrow> pyfloat list" where
  "rolling_mean w xs =
     map (\<lambda>i. if i + 1 < w then NaN else window_mean w (take w (drop (i + 1 - w) xs)))
       [0..<length xs]"

text \<open>
  \<open>Series.argmax()\<close>: the position of the first largest entry, not-a-number entries
  skipped; \<open>-1\<close> when every entry is not-a-number (pandas 1 and 2).
\<close>

fun argmax_from :: "nat \<Rightarrow> (nat \<times> real) option \<Rightarrow> pyfloat list \<Rightarrow> (nat \<times> real) option" where
  "argmax_from i best [] = best"
| "argmax_from i best (NaN # xs) = argmax_from (Suc i) best xs"
| "argmax_from i None (Val v # xs) = argmax_from (Suc i) (Some (i, v)) xs"
| "argmax_from i (Some (j, m)) (Val v # xs) =
     argmax_from (Suc i) (if m < v then Some (i, v) else Some (j, m)) xs"

definition argmax :: "pyfloat list \<Rightarrow> int" where
  "argmax xs = (case argmax_from 0 None xs of None \<Rightarrow> - 1 | Some (j, m) \<Rightarrow> int j)"

section \<open>The snippet: \<open>make_video_snippet\<close>\<close>

text \<open>
  What a call does to the world is recorded as a list of events: decoding the frames
  of a video, reading a table of predictions, copying a file, and running
  \<open>ffmpeg -ss s -i src -t t dst\<close>.
\<close>

datatype event =
  DecodeVideo string
  | ReadCsv string
  | CopyFile string string
  | RunFfmpeg int string int string

fun materialises :: "event \<Rightarrow> bool" where
  "materialises (CopyFile src dst) = True"
| "materialises (RunFfmpeg ss src t dst) = True"
| "materialises (DecodeVideo p) = False"
| "materialises (ReadCsv p) = False"

fun computes_motion :: "event \<Rightarrow> bool" where
  "computes_motion (DecodeVideo p) = True"
| "computes_motion (ReadCsv p) = True"
| "computes_motion (CopyFile src dst) = False"
| "computes_motion (RunFfmpeg ss src t dst) = False"

text \<open>
  Opening a path for writing needs the directory that is to hold it: the error raised
  when that directory is missing or is no directory. A path without a directory part
  lies in the working directory, and the root directory always exists.
\<close>

definition open_for_writing :: "filesys \<Rightarrow> string \<Rightarrow> py_error option" where
  "open_for_writing fs path =
     (case fs path of
        Some Directory \<Rightarrow> Some IsADirectoryError
      | _ \<Rightarrow>
          (let d = dirname path
           in if d = [] \<or> list_all is_slash d then None
              else (case fs d of
                      None \<Rightarrow> Some FileNotFoundError
                    | Some Directory \<Rightarrow> None
                    | Some _ \<Rightarrow> Some NotADirectoryError)))"

text \<open>
  \<open>shutil.copyfile(src, dst)\<close> refuses to copy a file onto itself, opens the source for
  reading and then the destination for writing, and writes the content of the source.
\<close>

definition copyfile :: "filesys \<Rightarrow> string \<Rightarrow> string \<Rightarrow> py_error + filesys" where
  "copyfile fs src dst =
     (case fs src of
        None \<Rightarrow> Inl FileNotFoundError
      | Some Directory \<Rightarrow> Inl (if src = dst then SameFileError else IsADirectoryError)
      | Some f \<Rightarrow>
          if src = dst then Inl SameFileError
          else (case open_for_writing fs dst of
                  Some e \<Rightarrow> Inl e
                | None \<Rightarrow> Inr (fs(dst \<mapsto> f))))"

text \<open>
  \<open>pd.read_csv(preds_file, header=[0, 1, 2], index_col=0)\<close>: the rows of numbers below
  the three header rows.
\<close>

definition read_csv :: "filesys \<Rightarrow> string \<Rightarrow> py_error + pyfloat list list" where
  "read_csv fs path =
     (case fs path of
        None \<Rightarrow> Inl FileNotFoundError
      | Some (CsvFile df) \<Rightarrow> Inr df
      | Some Directory \<Rightarrow> Inl IsADirectoryError
      | Some _ \<Rightarrow> Inl ParserError)"

text \<open>
  \<open>subprocess.run(ffmpeg_cmd, shell=True)\<close> does not raise when the command fails. The
  program itself is a parameter of the model: from the source video, the seek time
  and the duration it yields the video it writes to the output path, or nothing when
  it fails. It writes nothing either when the source is no video or the output path
  cannot be opened for writing.
\<close>

definition run_ffmpeg ::
  "(video \<Rightarrow> int \<Rightarrow> int \<Rightarrow> video option) \<Rightarrow> filesys \<Rightarrow> int \<Rightarrow> string \<Rightarrow> int \<Rightarrow> string
     \<Rightarrow> filesys" where
  "run_ffmpeg ffmpeg fs ss src t dst =
     (case fs src of
        Some (VideoFile v) \<Rightarrow>
          (case ffmpeg v ss t of
             None \<Rightarrow> fs
           | Some out \<Rightarrow>
               if open_for_writing fs dst = None then fs(dst \<mapsto> VideoFile out) else fs)
      | _ \<Rightarrow> fs)"

text \<open>Lines 189 to 202: where the snippet is saved.\<close>

definition snippet_path :: "string \<Rightarrow> string option \<Rightarrow> string" where
  "snippet_path video_file preds_file =
     (let save_dir = (case preds_file of
                        None \<Rightarrow> dirname video_file
                      | Some p \<Rightarrow> dirname p);
          new_video_name =
            py_replace (py_replace (basename video_file) ''.mp4'' ''.short.mp4'')
              ''.avi'' ''.short.mp4''
      in path_join save_dir new_video_name)"

text \<open>Line 185: \<open>win_len = int(fps * clip_length)\<close>.\<close>

definition window_frames :: "real \<Rightarrow> int \<Rightarrow> int" where
  "window_frames fps clip_length = py_int (float_mul fps (float_of_int clip_length))"

text \<open>Lines 213 to 220: the motion energy, with the reads it takes.\<close>

definition motion_energy ::
  "(frame \<Rightarrow> nat \<Rightarrow> frame) \<Rightarrow> filesys \<Rightarrow> string \<Rightarrow> string option \<Rightarrow> real
     \<Rightarrow> py_error + pyfloat list \<times> event list" where
  "motion_energy resize fs video_file preds_file likelihood_thresh =
     (case preds_file of
        None \<Rightarrow>
          (case compute_video_motion_energy resize fs video_file 32 of
             Inl e \<Rightarrow> Inl e
           | Inr me \<Rightarrow> Inr (map Val me, [DecodeVideo video_file]))
      | Some p \<Rightarrow>
          (case read_csv fs p of
             Inl e \<Rightarrow> Inl e
           | Inr df \<Rightarrow>
               (case compute_motion_energy_from_predection_df df likelihood_thresh of
                  Inl e \<Rightarrow> Inl e
                | Inr me \<Rightarrow> Inr (me, [ReadCsv p]))))"

text \<open>
  Lines 222 to 230: the start of the window as a frame index and in seconds. The index
  is an integer, so \<open>np.isnan(clip_start_sec)\<close> never holds and only the test for a
  negative value is left. Dividing by a frame rate of zero gives an infinity or
  not-a-number, which \<open>int\<close> refuses.
\<close>

definition window_start :: "pyfloat list \<Rightarrow> int \<Rightarrow> real \<Rightarrow> py_error + int \<times> int" where
  "window_start me win_len fps =
     (if win_len < 0 then Inl ValueError
      else
        (let df_me_win = rolling_mean (nat win_len) me;
             clip_start_idx = argmax df_me_win - win_len
         in if fps = 0 then Inl (if clip_start_idx = 0 then ValueError else OverflowError)
            else
              (let clip_start_sec = py_int (float_div (float_of_int clip_start_idx) fps)
               in Inr (clip_start_idx, if clip_start_sec < 0 then 0 else clip_start_sec))))"

text \<open>
  The function returns the triple of the destination path, the start index and the
  start in seconds; the model adds the file system it leaves and the events of the
  call.
\<close>

definition make_video_snippet ::
  "(frame \<Rightarrow> nat \<Rightarrow> frame) \<Rightarrow> (video \<Rightarrow> int \<Rightarrow> int \<Rightarrow> video option) \<Rightarrow> filesys
     \<Rightarrow> string \<Rightarrow> string option \<Rightarrow> int \<Rightarrow> real
     \<Rightarrow> py_error + (string \<times> int \<times> real) \<times> filesys \<times> event list" where
  "make_video_snippet resize ffmpeg fs video_file preds_file clip_length likelihood_thresh =
     (let video = VideoCapture fs video_file;
          fps = get_fps video;
          win_len = window_frames fps clip_length;
          n_frames = py_int (get_frame_count video);
          src = video_file;
          dst = snippet_path video_file preds_file
      in if n_frames \<le> win_len
         then (if fs dst \<noteq> None then Inr ((dst, 0, 0), fs, [])
               else case copyfile fs src dst of
                      Inl e \<Rightarrow> Inl e
                    | Inr fs' \<Rightarrow> Inr ((dst, 0, 0), fs', [CopyFile src dst]))
         else (case motion_energy resize fs video_file preds_file likelihood_thresh of
                 Inl e \<Rightarrow> Inl e
               | Inr (me, reads) \<Rightarrow>
                   (case window_start me win_len fps of
                      Inl e \<Rightarrow> Inl e
                    | Inr (clip_start_idx, clip_start_sec) \<Rightarrow>
                        if fs dst \<noteq> None
                        then Inr ((dst, clip_start_idx, of_int clip_start_sec), fs, reads)
                        else Inr ((dst, clip_start_idx, of_int clip_start_sec),
                                  run_ffmpeg ffmpeg fs clip_start_sec src clip_length dst,
                                  reads @ [RunFfmpeg clip_start_sec src clip_length dst]))))"

text \<open>Projections of a result.\<close>

definition returned ::
  "py_error + (string \<times> int \<times> real) \<times> filesys \<times> event list
     \<Rightarrow> (string \<times> int \<times> real) option" where
  "returned r = (case r of Inl e \<Rightarrow> None | Inr (t, fs, evs) \<Rightarrow> Some t)"

definition events_of ::
  "py_error + (string \<times> int \<times> real) \<times> filesys \<times> event list \<Rightarrow> event list" where
  "events_of r = (case r of Inl e \<Rightarrow> [] | Inr (t, fs, evs) \<Rightarrow> evs)"

definition filesys_after ::
  "filesys \<Rightarrow> py_error + (string \<times> int \<times> real) \<times> filesys \<times> event list \<Rightarrow> filesys" where
  "filesys_after fs r = (case r of Inl e \<Rightarrow> fs | Inr (t, fs', evs) \<Rightarrow> fs')"

section \<open>Example inputs\<close>

text \<open>
  Small inputs on which the functions are evaluated below: frames of one pixel whose
  three channels have the same value, a resize that keeps the frame, an \<open>ffmpeg\<close> that
  writes its input unchanged, and videos given by their frame rate and the pixel value
  of every frame.
\<close>

definition px :: "nat \<Rightarrow> frame" where
  "px v = [[[v, v, v]]]"

definition keep_size :: "frame \<Rightarrow> nat \<Rightarrow> frame" where
  "keep_size f d = f"

definition same_video :: "video \<Rightarrow> int \<Rightarrow> int \<Rightarrow> video option" where
  "same_video v ss t = Some v"

definition vid :: "real \<Rightarrow> nat list \<Rightarrow> video" where
  "vid r vs = \<lparr>v_fps = r, v_frame_count = real (length vs), v_frames = map px vs\<rparr>"

definition no_files :: filesys where
  "no_files = (\<lambda>p. None)"

text \<open>A file system with the one directory \<open>/d\<close>.\<close>

definition dir_d :: filesys where
  "dir_d = no_files(''/d'' \<mapsto> Directory)"

text \<open>Four frames at one frame per second; all the motion is between the first two.\<close>

definition fs_early :: filesys where
  "fs_early = dir_d(''/d/v.mp4'' \<mapsto> VideoFile (vid 1 [0, 5, 5, 5]))"

text \<open>Six frames at one frame per second; all the motion is between frames 2 and 3.\<close>

definition fs_late :: filesys where
  "fs_late = dir_d(''/d/v.mp4'' \<mapsto> VideoFile (vid 1 [0, 0, 0, 3, 3, 3]))"

text \<open>Eight frames at two frames per second; all the motion is between frames 4 and 5.\<close>

definition fs_two_fps :: filesys where
  "fs_two_fps = dir_d(''/d/v.mp4'' \<mapsto> VideoFile (vid 2 [0, 0, 0, 0, 0, 9, 9, 9]))"

text \<open>
  Three frames at one frame per second with predictions of one keypoint whose
  confidence is 0.1 in every row.
\<close>

definition low_conf_df :: "pyfloat list list" where
  "low_conf_df =
     [[Val 1, Val 1, Val (1 / 10)], [Val 2, Val 2, Val (1 / 10)], [Val 3, Val 3, Val (1 / 10)]]"

definition fs_low_conf :: filesys where
  "fs_low_conf =
     dir_d(''/p'' \<mapsto> Directory, ''/d/v.mp4'' \<mapsto> VideoFile (vid 1 [0, 5, 5]),
           ''/p/v.csv'' \<mapsto> CsvFile low_conf_df)"

text \<open>The first of these file systems once the snippet has been written.\<close>

definition fs_early_done :: filesys where
  "fs_early_done = fs_early(''/d/v.short.mp4'' \<mapsto> VideoFile (vid 1 [0, 5, 5, 5]))"

text \<open>
  Two rows of predictions of two keypoints: the first keypoint moves from \<open>(0, 0)\<close> to
  \<open>(3, 4)\<close> with confidence 1, the second has confidence 0.1 in the second row.
\<close>

definition two_keypoints_df :: "pyfloat list list" where
  "two_keypoints_df =
     [[Val 0, Val 0, Val 1, Val 1, Val 1, Val 1],
      [Val 3, Val 4, Val 1, Val 9, Val 9, Val (1 / 10)]]"

text \<open>
  A video of three frames whose container reports two, and a video of two frames
  whose container reports the frame count \<open>-1\<close>.
\<close>

definition fs_undercount :: filesys where
  "fs_undercount =
     dir_d(''/d/v.mp4'' \<mapsto>
       VideoFile \<lparr>v_fps = 1, v_frame_count = 2, v_frames = map px [0, 5, 5]\<rparr>)"

definition fs_negative_count :: filesys where
  "fs_negative_count =
     dir_d(''/d/v.mp4'' \<mapsto>
       VideoFile \<lparr>v_fps = 1, v_frame_count = - 1, v_frames = map px [0, 5]\<rparr>)"

text \<open>A capture of three frames of two pixels in a row.\<close>

definition three_frames :: capture where
  "three_frames =
     \<lparr>cap_video = Some \<lparr>v_fps = 1, v_frame_count = 3,
                          v_frames = [[[[1, 2, 3], [4, 5, 6]]], [[[7, 8, 9], [1, 1, 1]]],
                                      [[[2, 2, 2], [3, 3, 3]]]]\<rparr>,
      cap_pos = 0\<rparr>"

section \<open>Rounding to binary64\<close>

text \<open>
  Rounding is monotone, keeps the sign, and leaves the integers up to \<open>2 ^ 53\<close> as they
  are.
\<close>

lemma rhe_of_int: "round_half_even (of_int k) = k"
  by (simp add: round_half_even_def)

lemma rhe_bounds: "\<lfloor>y\<rfloor> \<le> round_half_even y \<and> round_half_even y \<le> \<lfloor>y\<rfloor> + 1"
  by (simp add: round_half_even_def Let_def)

lemma rhe_mono: "x \<le> y \<Longrightarrow> round_half_even x \<le> round_half_even y"
proof -
  assume xy: "x \<le> y"
  have fl: "\<lfloor>x\<rfloor> \<le> \<lfloor>y\<rfloor>"
    using xy by (rule floor_mono)
  show ?thesis
  proof (cases "\<lfloor>x\<rfloor> = \<lfloor>y\<rfloor>")
    case True
    then show ?thesis
      using xy by (auto simp: round_half_even_def Let_def)
  next
    case False
    then have "\<lfloor>x\<rfloor> + 1 \<le> \<lfloor>y\<rfloor>"
      using fl by simp
    then show ?thesis
      using rhe_bounds[of x] rhe_bounds[of y] by linarith
  qed
qed

lemma two_powi_step: "2 * (2::real) powi (e - 1) = 2 powi e"
  by (simp add: power_int_diff)

lemma two_powi_succ: "(2::real) powi (e + 1) = 2 * 2 powi e"
  by (simp add: power_int_add)

lemma scale_up_value: "scale_up m e = (m', e') \<Longrightarrow> m' * 2 powi e' = m * 2 powi e"
proof (induction m e rule: scale_up.induct)
  case (1 m e)
  show ?case
  proof (cases "m < 2 ^ 52 \<and> - 1074 < e")
    case True
    with "1.prems" have "scale_up (2 * m) (e - 1) = (m', e')"
      by (subst (asm) scale_up.simps) simp
    from "1.IH"[OF True this] show ?thesis
      using two_powi_step[of e] by (simp add: mult.assoc)
  next
    case False
    with "1.prems" show ?thesis
      by (subst (asm) scale_up.simps) auto
  qed
qed

lemma scale_up_exp:
  "scale_up m e = (m', e') \<Longrightarrow> - 1074 \<le> e \<Longrightarrow>
     e' \<le> e \<and> - 1074 \<le> e' \<and> (2 ^ 52 \<le> m' \<or> e' = - 1074) \<and> (m < 2 ^ 53 \<longrightarrow> m' < 2 ^ 53)"
proof (induction m e rule: scale_up.induct)
  case (1 m e)
  show ?case
  proof (cases "m < 2 ^ 52 \<and> - 1074 < e")
    case True
    with "1.prems" have "scale_up (2 * m) (e - 1) = (m', e')"
      by (subst (asm) scale_up.simps) simp
    from "1.IH"[OF True this] True show ?thesis
      by auto
  next
    case False
    with "1.prems" show ?thesis
      by (subst (asm) scale_up.simps) auto
  qed
qed

lemma scale_down_value: "scale_down m e = (m', e') \<Longrightarrow> m' * 2 powi e' = m * 2 powi e"
proof (induction m e rule: scale_down.induct)
  case (1 m e)
  show ?case
  proof (cases "2 ^ 53 \<le> m \<and> e < 971")
    case True
    with "1.prems" have "scale_down (m / 2) (e + 1) = (m', e')"
      by (subst (asm) scale_down.simps) simp
    from "1.IH"[OF True this] show ?thesis
      using two_powi_succ[of e] by simp
  next
    case False
    with "1.prems" show ?thesis
      by (subst (asm) scale_down.simps) auto
  qed
qed

lemma scale_down_exp:
  "scale_down m e = (m', e') \<Longrightarrow> e \<le> 971 \<Longrightarrow>
     e \<le> e' \<and> e' \<le> 971 \<and> (m' < 2 ^ 53 \<or> e' = 971) \<and> (2 ^ 52 \<le> m \<longrightarrow> 2 ^ 52 \<le> m')"
proof (induction m e rule: scale_down.induct)
  case (1 m e)
  show ?case
  proof (cases "2 ^ 53 \<le> m \<and> e < 971")
    case True
    with "1.prems" have "scale_down (m / 2) (e + 1) = (m', e')"
      by (subst (asm) scale_down.simps) simp
    from "1.IH"[OF True this] True show ?thesis
      by auto
  next
    case False
    with "1.prems" show ?thesis
      by (subst (asm) scale_down.simps) auto
  qed
qed

lemma normalise_props:
  assumes "normalise x = (m, e)"
  shows "m * 2 powi e = x" and "- 1074 \<le> e" and "e \<le> 971"
    and "m < 2 ^ 53 \<or> e = 971" and "2 ^ 52 \<le> m \<or> e = - 1074"
proof -
  show "m * 2 powi e = x"
  proof (cases "(2::real) ^ 53 \<le> x")
    case True
    then have "scale_down x 0 = (m, e)"
      using assms by (simp only: normalise_def if_True)
    from scale_down_value[OF this] show ?thesis
      by simp
  next
    case False
    then have "scale_up x 0 = (m, e)"
      using assms by (simp only: normalise_def if_False)
    from scale_up_value[OF this] show ?thesis
      by simp
  qed
  have all: "- 1074 \<le> e \<and> e \<le> 971 \<and> (m < 2 ^ 53 \<or> e = 971) \<and> (2 ^ 52 \<le> m \<or> e = - 1074)"
  proof (cases "(2::real) ^ 53 \<le> x")
    case True
    then have sd: "scale_down x 0 = (m, e)"
      using assms by (simp only: normalise_def if_True)
    have "(2::real) ^ 52 \<le> 2 ^ 53"
      by simp
    with True have "(2::real) ^ 52 \<le> x"
      by (rule order_trans[rotated])
    with scale_down_exp[OF sd] show ?thesis
      by linarith
  next
    case False
    then have su: "scale_up x 0 = (m, e)"
      using assms by (simp only: normalise_def if_False)
    from False have "x < 2 ^ 53"
      by (simp only: not_le)
    with scale_up_exp[OF su] show ?thesis
      by linarith
  qed
  from all show "- 1074 \<le> e" "e \<le> 971" "m < 2 ^ 53 \<or> e = 971" "2 ^ 52 \<le> m \<or> e = - 1074"
    by blast+
qed

lemma two_powi_pos: "0 < (2::real) powi e"
  by simp

lemma two_powi_mono: "a \<le> b \<Longrightarrow> (2::real) powi a \<le> 2 powi b"
  by (rule power_int_increasing) simp_all

lemma round_double_pos:
  "0 < x \<Longrightarrow> normalise x = (m, e) \<Longrightarrow> round_double x = of_int (round_half_even m) * 2 powi e"
  by (simp add: round_double_def)

lemma round_double_zero: "round_double 0 = 0"
  by (simp add: round_double_def)

lemma round_double_minus: "round_double (- x) = - round_double x"
  by (simp add: round_double_def split: prod.splits)

lemma normalise_mantissa_pos:
  assumes "0 < x" and "normalise x = (m, e)"
  shows "0 < m"
proof -
  have "m * 2 powi e = x"
    using assms(2) by (rule normalise_props(1))
  with assms(1) have "0 < m * 2 powi e"
    by simp
  then show ?thesis
    using two_powi_pos[of e] by (simp add: zero_less_mult_iff)
qed

lemma rhe_nonneg: "0 \<le> m \<Longrightarrow> 0 \<le> round_half_even m"
  using rhe_mono[of 0 m] rhe_of_int[of 0] by simp

lemma round_double_nonneg: "0 \<le> x \<Longrightarrow> 0 \<le> round_double x"
proof (cases "x = 0")
  case True
  then show ?thesis
    by (simp add: round_double_zero)
next
  case False
  assume "0 \<le> x"
  with False have pos: "0 < x"
    by simp
  obtain m e where n: "normalise x = (m, e)"
    by (cases "normalise x")
  have "0 \<le> round_half_even m"
    using normalise_mantissa_pos[OF pos n] by (simp add: rhe_nonneg)
  then show ?thesis
    by (simp add: round_double_pos[OF pos n])
qed

lemma round_double_mono_pos:
  assumes pos: "0 < x" and xy: "x \<le> y"
  shows "round_double x \<le> round_double y"
proof -
  have posy: "0 < y"
    using pos xy by simp
  obtain mx ex where nx: "normalise x = (mx, ex)"
    by (cases "normalise x")
  obtain my ey where ny: "normalise y = (my, ey)"
    by (cases "normalise y")
  note px = normalise_props[OF nx]
  note py = normalise_props[OF ny]
  have rx: "round_double x = of_int (round_half_even mx) * 2 powi ex"
    using pos nx by (rule round_double_pos)
  have ry: "round_double y = of_int (round_half_even my) * 2 powi ey"
    using posy ny by (rule round_double_pos)
  have ee: "ex \<le> ey"
  proof (rule ccontr)
    assume "\<not> ex \<le> ey"
    then have lt: "ey + 1 \<le> ex"
      by simp
    with py(2) have "ex \<noteq> - 1074"
      by simp
    with px(5) have mx: "2 ^ 52 \<le> mx"
      by simp
    from lt px(3) have "ey \<noteq> 971"
      by simp
    with py(4) have my: "my < 2 ^ 53"
      by simp
    have "y = my * 2 powi ey"
      using py(1) by simp
    also have "\<dots> < 2 ^ 53 * 2 powi ey"
      using my two_powi_pos[of ey] by (rule mult_strict_right_mono)
    also have "\<dots> = 2 ^ 52 * 2 powi (ey + 1)"
      by (simp add: two_powi_succ)
    also have "\<dots> \<le> 2 ^ 52 * 2 powi ex"
      using two_powi_mono[OF lt] by simp
    also have "\<dots> \<le> mx * 2 powi ex"
      using mx two_powi_pos[of ex] by (simp add: mult_right_mono)
    also have "\<dots> = x"
      using px(1) by simp
    finally show False
      using xy by simp
  qed
  show ?thesis
  proof (cases "ex = ey")
    case True
    have "mx * 2 powi ey \<le> my * 2 powi ey"
      using px(1) py(1) xy True by simp
    then have "mx \<le> my"
      using two_powi_pos[of ey] by simp
    then have "round_half_even mx \<le> round_half_even my"
      by (rule rhe_mono)
    then have "(of_int (round_half_even mx) :: real) \<le> of_int (round_half_even my)"
      by simp
    then show ?thesis
      using two_powi_pos[of ey] by (simp add: rx ry True mult_right_mono)
  next
    case False
    with ee have lt: "ex + 1 \<le> ey"
      by simp
    with py(3) have "ex \<noteq> 971"
      by simp
    with px(4) have "mx < 2 ^ 53"
      by simp
    then have "mx \<le> of_int (2 ^ 53)"
      by simp
    then have "round_half_even mx \<le> round_half_even (of_int (2 ^ 53))"
      by (rule rhe_mono)
    then have "round_half_even mx \<le> 2 ^ 53"
      by (simp only: rhe_of_int)
    then have "(of_int (round_half_even mx) :: real) \<le> of_int (2 ^ 53)"
      by (simp only: of_int_le_iff)
    then have ux: "(of_int (round_half_even mx) :: real) \<le> 2 ^ 53"
      by simp
    from lt px(2) have "ey \<noteq> - 1074"
      by simp
    with py(5) have "2 ^ 52 \<le> my"
      by simp
    then have "of_int (2 ^ 52) \<le> my"
      by simp
    then have "round_half_even (of_int (2 ^ 52)) \<le> round_half_even my"
      by (rule rhe_mono)
    then have "2 ^ 52 \<le> round_half_even my"
      by (simp only: rhe_of_int)
    then have "(of_int (2 ^ 52) :: real) \<le> of_int (round_half_even my)"
      by (simp only: of_int_le_iff)
    then have ly: "(2 ^ 52 :: real) \<le> of_int (round_half_even my)"
      by simp
    have "round_double x \<le> 2 ^ 53 * 2 powi ex"
      using ux two_powi_pos[of ex] by (simp add: rx mult_right_mono)
    also have "\<dots> = 2 ^ 52 * 2 powi (ex + 1)"
      by (simp add: two_powi_succ)
    also have "\<dots> \<le> 2 ^ 52 * 2 powi ey"
      using two_powi_mono[OF lt] by simp
    also have "\<dots> \<le> round_double y"
      using ly two_powi_pos[of ey] by (simp add: ry mult_right_mono)
    finally show ?thesis .
  qed
qed

lemma round_double_mono: "x \<le> y \<Longrightarrow> round_double x \<le> round_double y"
proof -
  assume xy: "x \<le> y"
  consider "0 < x" | "x \<le> 0" "0 \<le> y" | "y < 0"
    by linarith
  then show ?thesis
  proof cases
    case 1
    then show ?thesis
      using xy by (rule round_double_mono_pos)
  next
    case 2
    have "0 \<le> round_double (- x)"
      using 2(1) by (simp add: round_double_nonneg)
    then have "round_double x \<le> 0"
      by (simp add: round_double_minus)
    also have "0 \<le> round_double y"
      using 2(2) by (rule round_double_nonneg)
    finally show ?thesis .
  next
    case 3
    then have "0 < - y" and "- y \<le> - x"
      using xy by simp_all
    then have "round_double (- y) \<le> round_double (- x)"
      by (rule round_double_mono_pos)
    then show ?thesis
      by (simp add: round_double_minus)
  qed
qed

lemma round_double_of_nat_pos:
  assumes "0 < n" and "n \<le> 2 ^ 53"
  shows "round_double (of_int n) = of_int n"
proof -
  have pos: "0 < (of_int n :: real)"
    using assms(1) by simp
  obtain m e where n: "normalise (of_int n) = (m, e)"
    by (cases "normalise (of_int n :: real)")
  note p = normalise_props[OF n]
  show ?thesis
  proof (cases "n = 2 ^ 53")
    case True
    have "normalise (2 ^ 53) = (2 ^ 52, 1)"
      by (simp add: normalise_def scale_down.simps[of "2 ^ 53" 0] scale_down.simps[of "2 ^ 52" 1])
    then show ?thesis
      using True round_double_pos[of "2 ^ 53" "2 ^ 52" 1] rhe_of_int[of "2 ^ 52"] by simp
  next
    case False
    with assms(2) have "n < 2 ^ 53"
      by simp
    then have "(of_int n :: real) < of_int (2 ^ 53)"
      by (simp only: of_int_less_iff)
    then have "\<not> 2 ^ 53 \<le> (of_int n :: real)"
      by simp
    then have su: "scale_up (of_int n) 0 = (m, e)"
      using n by (simp only: normalise_def if_False)
    from scale_up_exp[OF su] have e: "e \<le> 0"
      by simp
    have "m * 2 powi e = of_int n"
      by (rule p(1))
    then have "m = of_int n * 2 powi (- e)"
      by (simp add: power_int_minus field_simps)
    also have "\<dots> = of_int n * 2 ^ nat (- e)"
      using e by (simp add: power_int_def)
    also have "\<dots> = of_int (n * 2 ^ nat (- e))"
      by simp
    finally have m: "m = of_int (n * 2 ^ nat (- e))" .
    have "round_half_even m = n * 2 ^ nat (- e)"
      by (simp only: m rhe_of_int)
    then have "of_int (round_half_even m) = m"
      using m by simp
    then show ?thesis
      using round_double_pos[OF pos n] p(1) by simp
  qed
qed

lemma round_double_of_int: "\<bar>n\<bar> \<le> 2 ^ 53 \<Longrightarrow> round_double (of_int n) = of_int n"
proof -
  assume b: "\<bar>n\<bar> \<le> 2 ^ 53"
  consider "n = 0" | "0 < n" | "n < 0"
    by linarith
  then show ?thesis
  proof cases
    case 1
    then show ?thesis
      by (simp add: round_double_zero)
  next
    case 2
    with b show ?thesis
      by (simp add: round_double_of_nat_pos)
  next
    case 3
    with b have "round_double (of_int (- n)) = of_int (- n)"
      by (intro round_double_of_nat_pos) simp_all
    then show ?thesis
      by (simp add: round_double_minus)
  qed
qed

lemma two_powi_diff_nat: "b \<le> a \<Longrightarrow> (2::real) powi (a - b) = 2 ^ nat (a - b)"
  by (simp add: power_int_def)

lemma mantissa_of:
  fixes m x :: real
  assumes "m * 2 powi e' = x * 2 powi e"
  shows "m = x * 2 powi (e - e')"
proof -
  have "m = (m * 2 powi e') * 2 powi (- e')"
    by (simp add: power_int_minus)
  also have "\<dots> = x * (2 powi e * 2 powi (- e'))"
    using assms by simp
  also have "2 powi e * (2::real) powi (- e') = 2 powi (e - e')"
    by (simp add: power_int_diff power_int_minus divide_inverse)
  finally show ?thesis .
qed

lemma round_double_exact_pos:
  assumes n: "0 < n" "n < 2 ^ 53" and e: "- 1074 \<le> e" "e \<le> 971"
  shows "round_double (of_int n * 2 powi e) = of_int n * 2 powi e"
proof -
  let ?x = "of_int n * (2::real) powi e"
  have pos: "0 < ?x"
    using n(1) by simp
  obtain m e' where nm: "normalise ?x = (m, e')"
    by (cases "normalise ?x")
  note p = normalise_props[OF nm]
  have m: "m = of_int n * 2 powi (e - e')"
    using p(1) by (rule mantissa_of)
  have le: "e' \<le> e"
  proof (rule ccontr)
    assume "\<not> e' \<le> e"
    then have lt: "e - e' \<le> - 1"
      by simp
    with e(1) have "e' \<noteq> - 1074"
      by auto
    with p(5) have big: "2 ^ 52 \<le> m"
      by simp
    have "(2::real) powi (e - e') \<le> 2 powi (- 1)"
      using lt by (rule two_powi_mono)
    then have "(2::real) powi (e - e') \<le> 1 / 2"
      by simp
    moreover have "(of_int n :: real) < 2 ^ 53"
      using n(2) by (metis of_int_less_iff of_int_numeral of_int_power)
    ultimately have "of_int n * (2::real) powi (e - e') < 2 ^ 53 * (1 / 2)"
      using n(1) by (intro mult_less_le_imp_less) simp_all
    with m big show False
      by simp
  qed
  have "m = of_int (n * 2 ^ nat (e - e'))"
    using m le by (simp add: two_powi_diff_nat)
  then have "of_int (round_half_even m) = m"
    by (simp only: rhe_of_int)
  then show ?thesis
    using round_double_pos[OF pos nm] p(1) by simp
qed

lemma round_double_exact:
  assumes "\<bar>n\<bar> < 2 ^ 53" and "- 1074 \<le> e" and "e \<le> 971"
  shows "round_double (of_int n * 2 powi e) = of_int n * 2 powi e"
proof -
  consider "n = 0" | "0 < n" | "n < 0"
    by linarith
  then show ?thesis
  proof cases
    case 1
    then show ?thesis
      by (simp add: round_double_zero)
  next
    case 2
    with assms show ?thesis
      by (intro round_double_exact_pos) simp_all
  next
    case 3
    with assms have "round_double (of_int (- n) * 2 powi e) = of_int (- n) * 2 powi e"
      by (intro round_double_exact_pos) simp_all
    then have "round_double (- (of_int n * 2 powi e)) = - (of_int n * 2 powi e)"
      by simp
    then show ?thesis
      by (simp only: round_double_minus neg_equal_iff_equal)
  qed
qed


lemma float_of_int_exact: "\<bar>n\<bar> \<le> 2 ^ 53 \<Longrightarrow> float_of_int n = of_int n"
  by (simp add: float_of_int_def round_double_of_int)

lemma float_of_int_nonneg: "0 \<le> n \<Longrightarrow> 0 \<le> float_of_int n"
  by (simp add: float_of_int_def round_double_nonneg)

lemma float_of_int_mono: "a \<le> b \<Longrightarrow> float_of_int a \<le> float_of_int b"
  by (simp add: float_of_int_def round_double_mono)

lemma float_mul_nonneg: "0 \<le> a \<Longrightarrow> 0 \<le> b \<Longrightarrow> 0 \<le> float_mul a b"
  by (simp add: float_mul_def round_double_nonneg)

lemma float_div_nonneg: "0 \<le> a \<Longrightarrow> 0 \<le> b \<Longrightarrow> 0 \<le> float_div a b"
  by (simp add: float_div_def round_double_nonneg)

lemma round_double_le_int:
  "x \<le> of_int n \<Longrightarrow> \<bar>n\<bar> \<le> 2 ^ 53 \<Longrightarrow> round_double x \<le> of_int n"
  using round_double_mono[of x "of_int n"] by (simp add: round_double_of_int)

lemma float_div_zero: "float_div 0 b = 0"
  by (simp add: float_div_def round_double_zero)

lemma float_mul_zero: "float_mul 0 b = 0"
  by (simp add: float_mul_def round_double_zero)

lemma float_div_one: "\<bar>n\<bar> \<le> 2 ^ 53 \<Longrightarrow> float_div (of_int n) 1 = of_int n"
  by (simp add: float_div_def round_double_of_int)

lemma float_div_two: "\<bar>n\<bar> < 2 ^ 53 \<Longrightarrow> float_div (of_int n) 2 = of_int n / 2"
  unfolding float_div_def using round_double_exact[of n "- 1"] by simp

lemma float_mul_ints:
  "\<bar>a * b\<bar> \<le> 2 ^ 53 \<Longrightarrow> float_mul (of_int a) (of_int b) = of_int (a * b)"
  unfolding float_mul_def using round_double_of_int[of "a * b"] by simp

section \<open>Evaluation of the parts\<close>

lemma snippet_path_d_v: "snippet_path ''/d/v.mp4'' None = ''/d/v.short.mp4''"
  by code_simp

lemma snippet_path_p_v: "snippet_path ''/d/v.mp4'' (Some ''/p/v.csv'') = ''/p/v.short.mp4''"
  by code_simp

text \<open>Without a progress sink the reading loop only collects the frames.\<close>

lemma report_progress_no_work: "rd_progress st = None \<Longrightarrow> report_progress p d st = st"
  by (simp add: report_progress_def)

lemmas read_frames_simps =
  compute_video_motion_energy_def read_nth_frames_def VideoCapture_def vid_def px_def
  get_frame_count_def read_loop.simps isOpened_def cap_read_def read_frame_def
  report_progress_no_work keep_size_def cvtColor_BGR2RGB_def flatten_frame_def diff_rows_def
  Let_def

lemma me_early:
  "compute_video_motion_energy keep_size fs_early ''/d/v.mp4'' 32 = Inr [0, 15, 0, 0]"
  by (simp add: read_frames_simps fs_early_def)

lemma me_late:
  "compute_video_motion_energy keep_size fs_late ''/d/v.mp4'' 32 = Inr [0, 0, 0, 9, 0, 0]"
  by (simp add: read_frames_simps fs_late_def)

lemma py_int_of_int: "py_int (of_int k) = k"
  by (simp add: py_int_def)

lemma window_frames_whole:
  assumes "\<bar>w\<bar> \<le> 2 ^ 53" and "\<bar>f * w\<bar> \<le> 2 ^ 53"
  shows "window_frames (of_int f) w = f * w"
proof -
  have "float_mul (of_int f) (float_of_int w) = of_int (f * w)"
    by (simp only: float_of_int_exact[OF assms(1)] float_mul_ints[OF assms(2)])
  then show ?thesis
    by (simp only: window_frames_def py_int_of_int)
qed

lemma window_frames_1_2: "window_frames 1 2 = 2"
  using window_frames_whole[of 2 1] by simp

lemmas rolling_simps =
  rolling_mean_def window_mean_def upt_rec float_of_int_exact float_div_zero

lemma rolling_early:
  "rolling_mean 2 [Val 0, Val 15, Val 0, Val 0] = [NaN, Val (15 / 2), Val (15 / 2), Val 0]"
  using float_div_two[of 15] by (simp add: rolling_simps)

lemma rolling_late:
  "rolling_mean 2 [Val 0, Val 0, Val 0, Val 9, Val 0, Val 0]
     = [NaN, Val 0, Val 0, Val (9 / 2), Val (9 / 2), Val 0]"
  using float_div_two[of 9] by (simp add: rolling_simps)

lemma rolling_low_conf: "rolling_mean 2 [Val 0, NaN, NaN] = [NaN, NaN, NaN]"
  by (simp add: rolling_simps)

lemma window_early: "window_start (map Val [0, 15, 0, 0]) 2 1 = Inr (- 1, 0)"
proof -
  have "argmax [NaN, Val (15 / 2), Val (15 / 2), Val 0] = 1"
    by code_simp
  then show ?thesis
    using float_div_one[of "- 1"]
    by (simp add: window_start_def rolling_early float_of_int_exact py_int_def)
qed

lemma argmax_late: "argmax (rolling_mean 2 (map Val [0, 0, 0, 9, 0, 0])) = 3"
proof -
  have "argmax [NaN, Val 0, Val 0, Val (9 / 2), Val (9 / 2), Val 0] = 3"
    by code_simp
  then show ?thesis
    by (simp add: rolling_late)
qed

lemma window_late: "window_start (map Val [0, 0, 0, 9, 0, 0]) 2 1 = Inr (1, 1)"
  using argmax_late float_div_one[of 1]
  by (simp add: window_start_def float_of_int_exact py_int_def)

lemma capture_early:
  "VideoCapture fs_early ''/d/v.mp4'' = \<lparr>cap_video = Some (vid 1 [0, 5, 5, 5]), cap_pos = 0\<rparr>"
  by (simp add: VideoCapture_def fs_early_def)

lemma capture_late:
  "VideoCapture fs_late ''/d/v.mp4''
     = \<lparr>cap_video = Some (vid 1 [0, 0, 0, 3, 3, 3]), cap_pos = 0\<rparr>"
  by (simp add: VideoCapture_def fs_late_def)

lemma writable_early: "open_for_writing fs_early ''/d/v.short.mp4'' = None"
  by code_simp

lemma writable_late: "open_for_writing fs_late ''/d/v.short.mp4'' = None"
  by code_simp

lemma writable_low_conf: "open_for_writing fs_low_conf ''/p/v.short.mp4'' = None"
  by code_simp

section \<open>The two branches of \<open>make_video_snippet\<close>\<close>

lemma window_frames_floor:
  "0 \<le> f \<Longrightarrow> 0 \<le> w \<Longrightarrow> window_frames f w = \<lfloor>float_mul f (float_of_int w)\<rfloor>"
  by (simp add: window_frames_def py_int_def float_mul_nonneg float_of_int_nonneg)

lemma window_frames_zero_rate: "window_frames 0 clip_length = 0"
  by (simp add: window_frames_def py_int_def float_mul_def round_double_zero)

lemma make_video_snippet_short:
  assumes "py_int (get_frame_count (VideoCapture fs video_file))
             \<le> window_frames (get_fps (VideoCapture fs video_file)) clip_length"
  shows "make_video_snippet resize ffmpeg fs video_file preds_file clip_length likelihood_thresh
           = (if fs (snippet_path video_file preds_file) \<noteq> None
              then Inr ((snippet_path video_file preds_file, 0, 0), fs, [])
              else case copyfile fs video_file (snippet_path video_file preds_file) of
                     Inl e \<Rightarrow> Inl e
                   | Inr fs' \<Rightarrow>
                       Inr ((snippet_path video_file preds_file, 0, 0), fs',
                            [CopyFile video_file (snippet_path video_file preds_file)]))"
  using assms by (simp add: make_video_snippet_def Let_def)

lemma window_start_value:
  assumes "0 \<le> win_len" and "fps \<noteq> 0"
  shows "window_start me win_len fps
           = Inr (argmax (rolling_mean (nat win_len) me) - win_len,
                  max 0 (py_int (float_div
                    (float_of_int (argmax (rolling_mean (nat win_len) me) - win_len)) fps)))"
  using assms by (simp add: window_start_def Let_def max_def)

lemma make_video_snippet_trim:
  assumes "window_frames (get_fps (VideoCapture fs video_file)) clip_length
             < py_int (get_frame_count (VideoCapture fs video_file))"
    and "motion_energy resize fs video_file preds_file likelihood_thresh = Inr (me, reads)"
    and "window_start me (window_frames (get_fps (VideoCapture fs video_file)) clip_length)
           (get_fps (VideoCapture fs video_file)) = Inr (idx, sec)"
  shows "make_video_snippet resize ffmpeg fs video_file preds_file clip_length likelihood_thresh
           = (if fs (snippet_path video_file preds_file) \<noteq> None
              then Inr ((snippet_path video_file preds_file, idx, of_int sec), fs, reads)
              else Inr ((snippet_path video_file preds_file, idx, of_int sec),
                        run_ffmpeg ffmpeg fs sec video_file clip_length
                          (snippet_path video_file preds_file),
                        reads @ [RunFfmpeg sec video_file clip_length
                                   (snippet_path video_file preds_file)]))"
  using assms by (simp add: make_video_snippet_def Let_def)

lemma snippet_early:
  "make_video_snippet keep_size same_video fs_early ''/d/v.mp4'' None 2 (9 / 10)
     = Inr ((''/d/v.short.mp4'', - 1, 0),
            fs_early(''/d/v.short.mp4'' \<mapsto> VideoFile (vid 1 [0, 5, 5, 5])),
            [DecodeVideo ''/d/v.mp4'', RunFfmpeg 0 ''/d/v.mp4'' 2 ''/d/v.short.mp4''])"
proof -
  have dst: "fs_early ''/d/v.short.mp4'' = None"
    by (simp add: fs_early_def dir_d_def no_files_def)
  have src: "fs_early ''/d/v.mp4'' = Some (VideoFile (vid 1 [0, 5, 5, 5]))"
    by (simp add: fs_early_def)
  have n: "py_int 4 = 4"
    by (simp add: py_int_def)
  have ws: "window_start [Val 0, Val 15, Val 0, Val 0] 2 1 = Inr (- 1, 0)"
    using window_early by simp
  show ?thesis
    by (simp add: make_video_snippet_def capture_early get_fps_def get_frame_count_def
        vid_def[of 1] window_frames_1_2 n snippet_path_d_v dst motion_energy_def me_early
        ws run_ffmpeg_def src same_video_def writable_early Let_def)
qed

lemma snippet_late:
  "make_video_snippet keep_size same_video fs_late ''/d/v.mp4'' None 2 (9 / 10)
     = Inr ((''/d/v.short.mp4'', 1, 1),
            fs_late(''/d/v.short.mp4'' \<mapsto> VideoFile (vid 1 [0, 0, 0, 3, 3, 3])),
            [DecodeVideo ''/d/v.mp4'', RunFfmpeg 1 ''/d/v.mp4'' 2 ''/d/v.short.mp4''])"
proof -
  have dst: "fs_late ''/d/v.short.mp4'' = None"
    by (simp add: fs_late_def dir_d_def no_files_def)
  have src: "fs_late ''/d/v.mp4'' = Some (VideoFile (vid 1 [0, 0, 0, 3, 3, 3]))"
    by (simp add: fs_late_def)
  have n: "py_int 6 = 6"
    by (simp add: py_int_def)
  have ws: "window_start [Val 0, Val 0, Val 0, Val 9, Val 0, Val 0] 2 1 = Inr (1, 1)"
    using window_late by simp
  show ?thesis
    by (simp add: make_video_snippet_def capture_late get_fps_def get_frame_count_def
        vid_def[of 1] window_frames_1_2 n snippet_path_d_v dst motion_energy_def me_late
        ws run_ffmpeg_def src same_video_def writable_late Let_def)
qed

lemma me_low_conf:
  "compute_motion_energy_from_predection_df low_conf_df (9 / 10) = Inr [Val 0, NaN, NaN]"
  by (simp add: compute_motion_energy_from_predection_df_def low_conf_df_def apply_thresh_def
      pair_energy_def displacement_def nanmean_def)

lemma window_low_conf: "window_start [Val 0, NaN, NaN] 2 1 = Inr (- 3, 0)"
proof -
  have "argmax [NaN, NaN, NaN] = - 1"
    by code_simp
  then show ?thesis
    using float_div_one[of "- 3"]
    by (simp add: window_start_def rolling_low_conf float_of_int_exact py_int_def)
qed

lemma capture_low_conf:
  "VideoCapture fs_low_conf ''/d/v.mp4'' = \<lparr>cap_video = Some (vid 1 [0, 5, 5]), cap_pos = 0\<rparr>"
  by (simp add: VideoCapture_def fs_low_conf_def)

lemma snippet_low_conf:
  "make_video_snippet keep_size same_video fs_low_conf ''/d/v.mp4'' (Some ''/p/v.csv'') 2 (9 / 10)
     = Inr ((''/p/v.short.mp4'', - 3, 0),
            fs_low_conf(''/p/v.short.mp4'' \<mapsto> VideoFile (vid 1 [0, 5, 5])),
            [ReadCsv ''/p/v.csv'', RunFfmpeg 0 ''/d/v.mp4'' 2 ''/p/v.short.mp4''])"
proof -
  have dst: "fs_low_conf ''/p/v.short.mp4'' = None"
    by (simp add: fs_low_conf_def dir_d_def no_files_def)
  have src: "fs_low_conf ''/d/v.mp4'' = Some (VideoFile (vid 1 [0, 5, 5]))"
    by (simp add: fs_low_conf_def)
  have csv: "read_csv fs_low_conf ''/p/v.csv'' = Inr low_conf_df"
    by (simp add: read_csv_def fs_low_conf_def)
  have n: "py_int 3 = 3"
    by (simp add: py_int_def)
  show ?thesis
    by (simp add: make_video_snippet_def capture_low_conf get_fps_def get_frame_count_def
        vid_def[of 1] window_frames_1_2 n snippet_path_p_v dst motion_energy_def csv me_low_conf
        window_low_conf run_ffmpeg_def src same_video_def writable_low_conf Let_def)
qed

lemma motion_late:
  "motion_energy keep_size fs_late ''/d/v.mp4'' None (9 / 10)
     = Inr (map Val [0, 0, 0, 9, 0, 0], [DecodeVideo ''/d/v.mp4''])"
  by (simp add: motion_energy_def me_late)

section \<open>The start index of the window\<close>

text \<open>
  Claim C1 asks that a call which trims returns a start index between \<open>0\<close> and the
  number of frames less the window. On the video of four frames at one frame per
  second whose motion lies between its first two frames, with a clip of two seconds,
  the window is two frames, the video is trimmed, and the index returned is \<open>-1\<close>: the
  first full window ends at index 1, and the code subtracts the whole window length
  from it.
\<close>

theorem start_index_negative_on_early_motion:
  "window_frames (get_fps (VideoCapture fs_early ''/d/v.mp4'')) 2
     < py_int (get_frame_count (VideoCapture fs_early ''/d/v.mp4''))
   \<and> returned (make_video_snippet keep_size same_video fs_early ''/d/v.mp4'' None 2 (9 / 10))
       = Some (''/d/v.short.mp4'', - 1, 0)"
  by (simp add: snippet_early returned_def capture_early get_fps_def get_frame_count_def
      vid_def[of 1] window_frames_1_2 py_int_def)

text \<open>
  Claim C2 says that the start index is the index of the largest trailing average less
  \<open>window_length - 1\<close>. On the video of six frames at one frame per second whose motion
  lies between frames 2 and 3, with a clip of two seconds, the largest trailing average
  is at index 3, so the claim gives the start \<open>3 - (2 - 1) = 2\<close>; the code subtracts the
  whole window length and returns 1.
\<close>

theorem start_index_subtracts_whole_window:
  "compute_video_motion_energy keep_size fs_late ''/d/v.mp4'' 32 = Inr [0, 0, 0, 9, 0, 0]
   \<and> argmax (rolling_mean 2 (map Val [0, 0, 0, 9, 0, 0])) - (2 - 1) = 2
   \<and> returned (make_video_snippet keep_size same_video fs_late ''/d/v.mp4'' None 2 (9 / 10))
       = Some (''/d/v.short.mp4'', 1, 1)"
  by (simp add: me_late argmax_late[simplified] snippet_late returned_def)

text \<open>
  Claim C3 says that a start that is negative or not-a-number makes both the index and
  the seconds returned zero. With predictions whose confidence is below the threshold
  in every row, every trailing average is not-a-number, the index computed is
  \<open>-1 - 2 = -3\<close>, and the call returns the seconds \<open>0.0\<close> together with the index
  \<open>-3\<close>: only the seconds are reset.
\<close>

theorem fallback_keeps_negative_index:
  "compute_motion_energy_from_predection_df low_conf_df (9 / 10) = Inr [Val 0, NaN, NaN]
   \<and> rolling_mean 2 [Val 0, NaN, NaN] = [NaN, NaN, NaN]
   \<and> returned (make_video_snippet keep_size same_video fs_low_conf ''/d/v.mp4''
                 (Some ''/p/v.csv'') 2 (9 / 10))
       = Some (''/p/v.short.mp4'', - 3, 0)"
  by (simp add: me_low_conf rolling_low_conf snippet_low_conf returned_def)

section \<open>A video no longer than the window\<close>










section \<open>The start in seconds\<close>

text \<open>
  When a call trims and the start index it computes is not negative, the seconds
  returned are the integer truncation of the float quotient of the index and the
  frame rate, a whole number, and \<open>ffmpeg\<close> seeks to it when the destination does not
  exist yet.
\<close>

lemma start_seconds_of_nonnegative_index:
  assumes trims: "window_frames (get_fps (VideoCapture fs video_file)) clip_length
                    < py_int (get_frame_count (VideoCapture fs video_file))"
    and me: "motion_energy resize fs video_file preds_file likelihood_thresh = Inr (me, reads)"
    and fps: "0 < get_fps (VideoCapture fs video_file)" and clip: "0 \<le> clip_length"
    and idx: "idx = argmax (rolling_mean
                 (nat (window_frames (get_fps (VideoCapture fs video_file)) clip_length)) me)
               - window_frames (get_fps (VideoCapture fs video_file)) clip_length"
    and nonneg: "0 \<le> idx"
    and sec: "sec = py_int (float_div (float_of_int idx) (get_fps (VideoCapture fs video_file)))"
  shows "returned (make_video_snippet resize ffmpeg fs video_file preds_file clip_length
                     likelihood_thresh)
           = Some (snippet_path video_file preds_file, idx, of_int sec)"
    and "events_of (make_video_snippet resize ffmpeg fs video_file preds_file clip_length
                   likelihood_thresh)
        = reads @ (if fs (snippet_path video_file preds_file) \<noteq> None then []
                   else [RunFfmpeg sec video_file clip_length
                           (snippet_path video_file preds_file)])"
proof -
  let ?fps = "get_fps (VideoCapture fs video_file)"
  let ?w = "window_frames ?fps clip_length"
  have "0 \<le> float_mul ?fps (float_of_int clip_length)"
    using fps clip by (simp add: float_mul_nonneg float_of_int_nonneg)
  then have "0 \<le> \<lfloor>float_mul ?fps (float_of_int clip_length)\<rfloor>"
    by simp
  moreover have "?w = \<lfloor>float_mul ?fps (float_of_int clip_length)\<rfloor>"
    using fps clip by (intro window_frames_floor) simp_all
  ultimately have w: "0 \<le> ?w"
    by (simp only:)
  have "0 \<le> float_div (float_of_int idx) ?fps"
    using fps nonneg by (simp add: float_div_nonneg float_of_int_nonneg)
  then have "0 \<le> sec"
    by (simp add: sec py_int_def)
  then have "max 0 sec = sec"
    by simp
  then have ws: "window_start me ?w ?fps = Inr (idx, sec)"
    using window_start_value[of ?w ?fps me] w fps idx sec by simp
  show "returned (make_video_snippet resize ffmpeg fs video_file preds_file clip_length
                     likelihood_thresh)
           = Some (snippet_path video_file preds_file, idx, of_int sec)"
    by (simp add: make_video_snippet_trim[OF trims me ws] returned_def)
  show "events_of (make_video_snippet resize ffmpeg fs video_file preds_file clip_length
                   likelihood_thresh)
        = reads @ (if fs (snippet_path video_file preds_file) \<noteq> None then []
                   else [RunFfmpeg sec video_file clip_length
                           (snippet_path video_file preds_file)])"
    by (simp add: make_video_snippet_trim[OF trims me ws] events_of_def)
qed

text \<open>
  At two frames per second, with a clip of one second and the motion between frames 4
  and 5, the start index is 3 and the quotient 1.5: the seconds returned are 1.
\<close>

lemma me_two_fps:
  "compute_video_motion_energy keep_size fs_two_fps ''/d/v.mp4'' 32
     = Inr [0, 0, 0, 0, 0, 27, 0, 0]"
  by (simp add: read_frames_simps fs_two_fps_def)

lemma rolling_two_fps:
  "rolling_mean 2 [Val 0, Val 0, Val 0, Val 0, Val 0, Val 27, Val 0, Val 0]
     = [NaN, Val 0, Val 0, Val 0, Val 0, Val (27 / 2), Val (27 / 2), Val 0]"
  using float_div_two[of 27] by (simp add: rolling_simps)

lemma snippet_two_fps:
  "returned (make_video_snippet keep_size same_video fs_two_fps ''/d/v.mp4'' None 1 (9 / 10))
     = Some (''/d/v.short.mp4'', 3, 1)
   \<and> float_div (float_of_int 3) 2 = 3 / 2"
proof -
  have cap: "VideoCapture fs_two_fps ''/d/v.mp4''
      = \<lparr>cap_video = Some (vid 2 [0, 0, 0, 0, 0, 9, 9, 9]), cap_pos = 0\<rparr>"
    by (simp add: VideoCapture_def fs_two_fps_def)
  have fps: "get_fps (VideoCapture fs_two_fps ''/d/v.mp4'') = 2"
    by (simp add: cap get_fps_def vid_def)
  have n: "py_int (get_frame_count (VideoCapture fs_two_fps ''/d/v.mp4'')) = 8"
    by (simp add: cap get_frame_count_def vid_def py_int_def)
  have w: "window_frames 2 1 = 2"
    using window_frames_whole[of 1 2] by simp
  have am: "argmax [NaN, Val 0, Val 0, Val 0, Val 0, Val (27 / 2), Val (27 / 2), Val 0] = 5"
    by code_simp
  have q: "float_div (float_of_int 3) 2 = 3 / 2"
    using float_div_two[of 3] float_of_int_exact[of 3] by simp
  have sec: "py_int (3 / 2) = 1"
    by (simp add: py_int_def)
  have me: "motion_energy keep_size fs_two_fps ''/d/v.mp4'' None (9 / 10)
      = Inr (map Val [0, 0, 0, 0, 0, 27, 0, 0], [DecodeVideo ''/d/v.mp4''])"
    by (simp add: motion_energy_def me_two_fps)
  have "returned (make_video_snippet keep_size same_video fs_two_fps ''/d/v.mp4'' None 1 (9 / 10))
     = Some (snippet_path ''/d/v.mp4'' None, 3, of_int 1)"
    by (rule start_seconds_of_nonnegative_index(1)[OF _ me])
      (simp_all add: fps n w rolling_two_fps am q sec)
  then show ?thesis
    using q by (simp add: snippet_path_d_v)
qed

text \<open>
  Claim C9 says that the seconds returned by a call which trims are the integer
  truncation of the start index divided by the frame rate. That is what the code
  computes as long as the index is not negative. With predictions whose confidence is
  below the threshold in every row, the index returned is \<open>-3\<close> at one frame per
  second, whose truncation is \<open>-3\<close>, and the seconds returned are 0: lines 229 and
  230 reset the seconds and leave the index negative.
\<close>

theorem seconds_reset_without_index:
  "returned (make_video_snippet keep_size same_video fs_low_conf ''/d/v.mp4''
               (Some ''/p/v.csv'') 2 (9 / 10))
     = Some (''/p/v.short.mp4'', - 3, 0)
   \<and> get_fps (VideoCapture fs_low_conf ''/d/v.mp4'') = 1
   \<and> py_int (float_div (float_of_int (- 3)) 1) = - 3"
  using float_div_one[of "- 3"] float_of_int_exact[of "- 3"]
  by (simp add: snippet_low_conf returned_def capture_low_conf get_fps_def vid_def py_int_def)

section \<open>A video that cannot be opened\<close>

lemma read_loop_not_opened:
  "\<not> isOpened cap \<Longrightarrow>
     read_loop resize n resize_dims progress_delta frame_total cap st = (None, st)"
  by (subst read_loop.simps) simp

text \<open>
  Claim C4 says that \<open>read_nth_frames\<close> reports a video that cannot be opened as a fatal
  failure instead of producing an empty result. On a path where there is no file the
  function raises nothing: it logs the error and returns the empty list of frames.
\<close>

theorem unopened_video_returns_empty:
  "read_nth_frames keep_size no_files ''/d/missing.mp4'' 1 64 (1 / 2) None
     = (None, \<lparr>rd_frames = [], rd_counter = 0, rd_progress = None, rd_written = []\<rparr>, True)"
  by (simp add: read_nth_frames_def Let_def read_loop_not_opened isOpened_def VideoCapture_def
      no_files_def)

text \<open>
  Claim C4 as amended. When the video cannot be opened, \<open>read_nth_frames\<close> logs an
  error, reads no frame, writes no progress and returns the empty array without
  raising; the failure comes after it, in \<open>compute_video_motion_energy\<close>, where reshaping
  the empty array raises \<open>ValueError\<close>.
\<close>

theorem unopened_video_logged_then_reshape_fails:
  assumes "\<not> isOpened (VideoCapture fs video_file)"
  shows "read_nth_frames resize fs video_file n resize_dims progress_delta work
           = (None, \<lparr>rd_frames = [], rd_counter = 0, rd_progress = work, rd_written = []\<rparr>, True)
    \<and> compute_video_motion_energy resize fs video_file resize_dims = Inl ValueError"
proof -
  have r: "read_nth_frames resize fs video_file n resize_dims progress_delta work
           = (None, \<lparr>rd_frames = [], rd_counter = 0, rd_progress = work, rd_written = []\<rparr>, True)"
    for n progress_delta work
    using assms by (simp add: read_nth_frames_def Let_def read_loop_not_opened)
  show ?thesis
    by (simp add: r compute_video_motion_energy_def)
qed

theorem unopened_video_logged_then_reshape_fails_witness:
  "\<not> isOpened (VideoCapture no_files ''/d/missing.mp4'')
   \<and> read_nth_frames keep_size no_files ''/d/missing.mp4'' 1 32 (1 / 2) None
       = (None, \<lparr>rd_frames = [], rd_counter = 0, rd_progress = None, rd_written = []\<rparr>, True)
   \<and> compute_video_motion_energy keep_size no_files ''/d/missing.mp4'' 32 = Inl ValueError"
proof -
  have "\<not> isOpened (VideoCapture no_files ''/d/missing.mp4'')"
    by (simp add: isOpened_def VideoCapture_def no_files_def)
  from unopened_video_logged_then_reshape_fails[OF this] this show ?thesis
    by simp
qed

section \<open>Calling \<open>make_video_snippet\<close> again\<close>

lemma VideoCapture_other:
  "path \<noteq> k \<Longrightarrow> VideoCapture (fs(k \<mapsto> x)) path = VideoCapture fs path"
  by (simp add: VideoCapture_def)

lemma read_csv_other:
  "path \<noteq> k \<Longrightarrow> read_csv (fs(k \<mapsto> x)) path = read_csv fs path"
  by (simp add: read_csv_def)

lemma read_csv_exists: "read_csv fs path = Inr df \<Longrightarrow> fs path \<noteq> None"
  by (auto simp: read_csv_def split: option.splits)

lemma motion_energy_same_files:
  assumes "VideoCapture fs' video_file = VideoCapture fs video_file"
    and "\<And>p. preds_file = Some p \<Longrightarrow> read_csv fs' p = read_csv fs p"
  shows "motion_energy resize fs' video_file preds_file likelihood_thresh
           = motion_energy resize fs video_file preds_file likelihood_thresh"
proof (cases preds_file)
  case None
  then show ?thesis
    using assms(1)
    by (simp add: motion_energy_def compute_video_motion_energy_def read_nth_frames_def)
next
  case (Some p)
  then show ?thesis
    using assms(2) by (simp add: motion_energy_def)
qed

lemma motion_energy_reads:
  "motion_energy resize fs video_file preds_file likelihood_thresh = Inr (me, reads)
     \<Longrightarrow> reads = [case preds_file of None \<Rightarrow> DecodeVideo video_file | Some p \<Rightarrow> ReadCsv p]"
  by (auto simp: motion_energy_def split: option.splits sum.splits)

lemma motion_energy_preds_exist:
  "motion_energy resize fs video_file (Some p) likelihood_thresh = Inr (me, reads)
     \<Longrightarrow> fs p \<noteq> None"
  by (auto simp: motion_energy_def read_csv_def split: option.splits sum.splits)

lemma trimmed_video_is_opened:
  assumes "window_frames (get_fps (VideoCapture fs video_file)) clip_length
             < py_int (get_frame_count (VideoCapture fs video_file))"
  shows "fs video_file \<noteq> None"
proof
  assume "fs video_file = None"
  then have "VideoCapture fs video_file = \<lparr>cap_video = None, cap_pos = 0\<rparr>"
    by (simp add: VideoCapture_def)
  with assms show False
    by (simp add: get_fps_def get_frame_count_def window_frames_zero_rate py_int_def)
qed

lemma make_video_snippet_trim_cases:
  assumes "window_frames (get_fps (VideoCapture fs video_file)) clip_length
             < py_int (get_frame_count (VideoCapture fs video_file))"
    and "make_video_snippet resize ffmpeg fs video_file preds_file clip_length likelihood_thresh
           = Inr res"
  obtains me reads idx sec where
    "motion_energy resize fs video_file preds_file likelihood_thresh = Inr (me, reads)"
    "window_start me (window_frames (get_fps (VideoCapture fs video_file)) clip_length)
           (get_fps (VideoCapture fs video_file)) = Inr (idx, sec)"
  using assms
  by (auto simp: make_video_snippet_def Let_def split: sum.splits prod.splits)

lemma run_ffmpeg_result:
  "run_ffmpeg ffmpeg fs ss src t dst = fs
   \<or> (\<exists>out. run_ffmpeg ffmpeg fs ss src t dst = fs(dst \<mapsto> VideoFile out))"
  by (auto simp: run_ffmpeg_def split: option.splits fs_entry.splits if_splits)

lemma second_call_when_destination_exists:
  assumes first: "make_video_snippet resize ffmpeg fs video_file preds_file clip_length
                    likelihood_thresh = Inr (r, fs1, evs1)"
    and there: "fs1 (snippet_path video_file preds_file) \<noteq> None"
  shows "make_video_snippet resize ffmpeg fs1 video_file preds_file clip_length likelihood_thresh
           = Inr (r, fs1,
                  if py_int (get_frame_count (VideoCapture fs1 video_file))
                       \<le> window_frames (get_fps (VideoCapture fs1 video_file)) clip_length
                  then []
                  else [case preds_file of
                          None \<Rightarrow> DecodeVideo video_file
                        | Some p \<Rightarrow> ReadCsv p])"
proof -
  let ?dst = "snippet_path video_file preds_file"
  let ?cap = "VideoCapture fs video_file"
  let ?w = "window_frames (get_fps ?cap) clip_length"
  let ?n = "py_int (get_frame_count ?cap)"
  show ?thesis
  proof (cases "?n \<le> ?w")
    case short: True
    note eq = make_video_snippet_short[OF short, of resize ffmpeg preds_file likelihood_thresh]
    show ?thesis
    proof (cases "fs ?dst = None")
      case False
      with first eq have "r = (?dst, 0, 0)" "fs1 = fs"
        by auto
      with False eq short show ?thesis
        by auto
    next
      case True
      with first eq obtain f where f: "fs video_file = Some f" and fs1: "fs1 = fs(?dst \<mapsto> f)"
        and r: "r = (?dst, 0, 0)"
        by (auto simp: copyfile_def split: option.splits fs_entry.splits if_splits)
      from f True have ne: "video_file \<noteq> ?dst"
        by auto
      have cap: "VideoCapture fs1 video_file = ?cap"
        using ne fs1 by (simp add: VideoCapture_other)
      have short1: "py_int (get_frame_count (VideoCapture fs1 video_file))
             \<le> window_frames (get_fps (VideoCapture fs1 video_file)) clip_length"
        using short cap by simp
      show ?thesis
        using make_video_snippet_short[OF short1, of resize ffmpeg preds_file likelihood_thresh]
          fs1 r short1
        by simp
    qed
  next
    case long: False
    then have trims: "?w < ?n"
      by simp
    from make_video_snippet_trim_cases[OF trims first] obtain me reads idx sec where
      me: "motion_energy resize fs video_file preds_file likelihood_thresh = Inr (me, reads)"
      and ws: "window_start me ?w (get_fps ?cap) = Inr (idx, sec)"
      by blast
    note eq = make_video_snippet_trim[OF trims me ws, of ffmpeg]
    have reads: "reads = [case preds_file of None \<Rightarrow> DecodeVideo video_file | Some p \<Rightarrow> ReadCsv p]"
      using me by (rule motion_energy_reads)
    show ?thesis
    proof (cases "fs ?dst = None")
      case False
      with first eq have "r = (?dst, idx, of_int sec)" "fs1 = fs"
        by auto
      with False eq reads long show ?thesis
        by auto
    next
      case True
      with first eq have r: "r = (?dst, idx, of_int sec)"
        and fs1': "fs1 = run_ffmpeg ffmpeg fs sec video_file clip_length ?dst"
        by auto
      from fs1' there True obtain out where fs1: "fs1 = fs(?dst \<mapsto> VideoFile out)"
        using run_ffmpeg_result[of ffmpeg fs sec video_file clip_length ?dst] by auto
      have "fs video_file \<noteq> None"
        using trims by (rule trimmed_video_is_opened)
      with True have ne: "video_file \<noteq> ?dst"
        by auto
      have cap: "VideoCapture fs1 video_file = ?cap"
        using ne fs1 by (simp add: VideoCapture_other)
      have csv: "read_csv fs1 p = read_csv fs p" if "preds_file = Some p" for p
      proof -
        have "fs p \<noteq> None"
          using me that motion_energy_preds_exist by blast
        with True have "p \<noteq> ?dst"
          by auto
        then show ?thesis
          using fs1 by (simp add: read_csv_other)
      qed
      have me1: "motion_energy resize fs1 video_file preds_file likelihood_thresh = Inr (me, reads)"
        using motion_energy_same_files[OF cap csv] me by simp
      have trims1: "window_frames (get_fps (VideoCapture fs1 video_file)) clip_length
             < py_int (get_frame_count (VideoCapture fs1 video_file))"
        using trims cap by simp
      have ws1: "window_start me (window_frames (get_fps (VideoCapture fs1 video_file)) clip_length)
           (get_fps (VideoCapture fs1 video_file)) = Inr (idx, sec)"
        using ws cap by simp
      show ?thesis
        using make_video_snippet_trim[OF trims1 me1 ws1, of ffmpeg] there r reads trims1
        by simp
    qed
  qed
qed

lemma me_early_done:
  "compute_video_motion_energy keep_size fs_early_done ''/d/v.mp4'' 32 = Inr [0, 15, 0, 0]"
  by (simp add: read_frames_simps fs_early_done_def fs_early_def)

lemma capture_early_done:
  "VideoCapture fs_early_done ''/d/v.mp4''
     = \<lparr>cap_video = Some (vid 1 [0, 5, 5, 5]), cap_pos = 0\<rparr>"
  by (simp add: VideoCapture_def fs_early_done_def fs_early_def)

lemma snippet_early_done:
  "make_video_snippet keep_size same_video fs_early_done ''/d/v.mp4'' None 2 (9 / 10)
     = Inr ((''/d/v.short.mp4'', - 1, 0), fs_early_done, [DecodeVideo ''/d/v.mp4''])"
proof -
  have dst: "fs_early_done ''/d/v.short.mp4'' \<noteq> None"
    by (simp add: fs_early_done_def)
  have n: "py_int 4 = 4"
    by (simp add: py_int_def)
  have ws: "window_start [Val 0, Val 15, Val 0, Val 0] 2 1 = Inr (- 1, 0)"
    using window_early by simp
  show ?thesis
    using dst
    by (simp add: make_video_snippet_def capture_early_done get_fps_def get_frame_count_def
        vid_def[of 1] window_frames_1_2 n snippet_path_d_v motion_energy_def me_early_done ws
        Let_def)
qed

text \<open>
  Claim C5 says that a second call with the same source and destination performs no
  recomputation. After the first call on the video of four frames has written the
  snippet, the second call decodes the whole video again to compute the motion
  energy: the test for the destination guards only the \<open>ffmpeg\<close> call and the copy.
\<close>

theorem second_call_recomputes_motion:
  "filesys_after fs_early
     (make_video_snippet keep_size same_video fs_early ''/d/v.mp4'' None 2 (9 / 10))
     = fs_early_done
   \<and> events_of (make_video_snippet keep_size same_video fs_early_done ''/d/v.mp4'' None 2 (9 / 10))
       = [DecodeVideo ''/d/v.mp4'']
   \<and> list_ex computes_motion
       (events_of (make_video_snippet keep_size same_video fs_early_done ''/d/v.mp4'' None 2
          (9 / 10)))"
proof -
  have "filesys_after fs_early
     (make_video_snippet keep_size same_video fs_early ''/d/v.mp4'' None 2 (9 / 10))
     = fs_early_done"
    by (simp add: snippet_early filesys_after_def fs_early_done_def)
  then show ?thesis
    by (simp add: snippet_early_done events_of_def)
qed

text \<open>
  Claim C5 as amended. When a call has returned and the destination exists afterwards,
  a second call with the same arguments returns the same triple, leaves the file
  system as it is, and neither copies nor runs \<open>ffmpeg\<close>. For a video no longer than the
  window the second call does nothing else; for a video that is trimmed it computes
  the motion energy again, decoding the video or reading the predictions once more.
\<close>

theorem second_call_materialises_nothing:
  assumes "make_video_snippet resize ffmpeg fs video_file preds_file clip_length
                    likelihood_thresh = Inr (r, fs1, evs1)"
    and "fs1 (snippet_path video_file preds_file) \<noteq> None"
  shows "returned (make_video_snippet resize ffmpeg fs1 video_file preds_file clip_length
                     likelihood_thresh) = Some r
    \<and> filesys_after fs1 (make_video_snippet resize ffmpeg fs1 video_file preds_file clip_length
                     likelihood_thresh) = fs1
    \<and> \<not> list_ex materialises (events_of (make_video_snippet resize ffmpeg fs1 video_file
                     preds_file clip_length likelihood_thresh))
    \<and> events_of (make_video_snippet resize ffmpeg fs1 video_file preds_file clip_length
                   likelihood_thresh)
        = (if py_int (get_frame_count (VideoCapture fs1 video_file))
                \<le> window_frames (get_fps (VideoCapture fs1 video_file)) clip_length
           then []
           else [case preds_file of None \<Rightarrow> DecodeVideo video_file | Some p \<Rightarrow> ReadCsv p])
    \<and> (window_frames (get_fps (VideoCapture fs1 video_file)) clip_length
          < py_int (get_frame_count (VideoCapture fs1 video_file))
        \<longrightarrow> list_ex computes_motion
              (events_of (make_video_snippet resize ffmpeg fs1 video_file preds_file
                 clip_length likelihood_thresh)))"
  using second_call_when_destination_exists[OF assms]
  by (auto simp: returned_def filesys_after_def events_of_def split: option.splits)

theorem second_call_materialises_nothing_witness:
  "make_video_snippet keep_size same_video fs_early ''/d/v.mp4'' None 2 (9 / 10)
     = Inr ((''/d/v.short.mp4'', - 1, 0), fs_early_done,
            [DecodeVideo ''/d/v.mp4'', RunFfmpeg 0 ''/d/v.mp4'' 2 ''/d/v.short.mp4''])
   \<and> fs_early_done (snippet_path ''/d/v.mp4'' None) \<noteq> None
   \<and> returned (make_video_snippet keep_size same_video fs_early_done ''/d/v.mp4'' None 2
        (9 / 10)) = Some (''/d/v.short.mp4'', - 1, 0)
   \<and> filesys_after fs_early_done
        (make_video_snippet keep_size same_video fs_early_done ''/d/v.mp4'' None 2 (9 / 10))
       = fs_early_done
   \<and> \<not> list_ex materialises
        (events_of (make_video_snippet keep_size same_video fs_early_done ''/d/v.mp4'' None 2
           (9 / 10)))
   \<and> events_of (make_video_snippet keep_size same_video fs_early_done ''/d/v.mp4'' None 2
        (9 / 10)) = [DecodeVideo ''/d/v.mp4'']
   \<and> window_frames (get_fps (VideoCapture fs_early_done ''/d/v.mp4'')) 2
        < py_int (get_frame_count (VideoCapture fs_early_done ''/d/v.mp4''))
   \<and> list_ex computes_motion
        (events_of (make_video_snippet keep_size same_video fs_early_done ''/d/v.mp4'' None 2
           (9 / 10)))"
proof -
  have first: "make_video_snippet keep_size same_video fs_early ''/d/v.mp4'' None 2 (9 / 10)
     = Inr ((''/d/v.short.mp4'', - 1, 0), fs_early_done,
            [DecodeVideo ''/d/v.mp4'', RunFfmpeg 0 ''/d/v.mp4'' 2 ''/d/v.short.mp4''])"
    by (simp add: snippet_early fs_early_done_def)
  have there: "fs_early_done (snippet_path ''/d/v.mp4'' None) \<noteq> None"
    by (simp add: snippet_path_d_v fs_early_done_def)
  have trims: "window_frames (get_fps (VideoCapture fs_early_done ''/d/v.mp4'')) 2
        < py_int (get_frame_count (VideoCapture fs_early_done ''/d/v.mp4''))"
    by (simp add: capture_early_done get_fps_def get_frame_count_def vid_def[of 1]
        window_frames_1_2 py_int_def)
  from second_call_materialises_nothing[OF first there] first there trims show ?thesis
    by simp
qed

section \<open>Keypoints below the threshold\<close>

text \<open>
  A keypoint that is masked in one of two rows has no displacement, and the mean over
  the keypoints skips it: the energy of two rows is the mean displacement over their
  confident pairs.
\<close>

lemma displacement_masked_left [simp]: "displacement (NaN, NaN) q = NaN"
  by (cases q) (simp add: displacement_def)

lemma sub_float_NaN_right [simp]: "sub_float a NaN = NaN"
  by (cases a) simp_all

lemma norm2_NaN_right [simp]: "norm2 a NaN = NaN"
  by (cases a) simp_all

lemma displacement_masked_right [simp]: "displacement q (NaN, NaN) = NaN"
  by (simp add: displacement_def)

lemma vals_Cons: "vals (x # xs) = vals [x] @ vals xs"
  by (cases x) simp_all

lemma vals_masked_one:
  "vals [displacement (apply_thresh t a) (apply_thresh t b)]
     = (if \<not> below_thresh t a \<and> \<not> below_thresh t b
        then vals [displacement (keypoint_xy a) (keypoint_xy b)] else [])"
proof -
  obtain ax ay ac where a: "a = (ax, ay, ac)"
    by (cases a)
  obtain bx "by" bc where b: "b = (bx, by, bc)"
    by (cases b)
  show ?thesis
    by (simp add: a b apply_thresh_def below_thresh_def keypoint_xy_def)
qed

lemma vals_masked_pairs:
  "vals (map (\<lambda>pc. displacement (apply_thresh t (fst pc)) (apply_thresh t (snd pc))) ps)
     = vals (map (\<lambda>pc. displacement (keypoint_xy (fst pc)) (keypoint_xy (snd pc)))
          (filter (\<lambda>pc. \<not> below_thresh t (fst pc) \<and> \<not> below_thresh t (snd pc)) ps))"
proof (induction ps)
  case Nil
  then show ?case by simp
next
  case (Cons pc ps)
  have "vals (map (\<lambda>pc. displacement (apply_thresh t (fst pc)) (apply_thresh t (snd pc)))
               (pc # ps))
        = vals [displacement (apply_thresh t (fst pc)) (apply_thresh t (snd pc))]
          @ vals (map (\<lambda>pc. displacement (apply_thresh t (fst pc)) (apply_thresh t (snd pc))) ps)"
    by (simp only: list.map) (rule vals_Cons)
  also have "\<dots> = (if \<not> below_thresh t (fst pc) \<and> \<not> below_thresh t (snd pc)
                    then vals [displacement (keypoint_xy (fst pc)) (keypoint_xy (snd pc))] else [])
          @ vals (map (\<lambda>pc. displacement (keypoint_xy (fst pc)) (keypoint_xy (snd pc)))
              (filter (\<lambda>pc. \<not> below_thresh t (fst pc) \<and> \<not> below_thresh t (snd pc)) ps))"
    by (simp only: vals_masked_one Cons.IH)
  also have "\<dots> = vals (map (\<lambda>pc. displacement (keypoint_xy (fst pc)) (keypoint_xy (snd pc)))
          (filter (\<lambda>pc. \<not> below_thresh t (fst pc) \<and> \<not> below_thresh t (snd pc)) (pc # ps)))"
  proof (cases "\<not> below_thresh t (fst pc) \<and> \<not> below_thresh t (snd pc)")
    case True
    then show ?thesis
      using vals_Cons[of "displacement (keypoint_xy (fst pc)) (keypoint_xy (snd pc))"
          "map (\<lambda>pc. displacement (keypoint_xy (fst pc)) (keypoint_xy (snd pc)))
             (filter (\<lambda>pc. \<not> below_thresh t (fst pc) \<and> \<not> below_thresh t (snd pc)) ps)"]
      by simp
  next
    case False
    then show ?thesis
      by auto
  qed
  finally show ?case .
qed

lemma map2_masked:
  "map2 displacement (map (apply_thresh t) prev) (map (apply_thresh t) cur)
     = map (\<lambda>pc. displacement (apply_thresh t (fst pc)) (apply_thresh t (snd pc))) (zip prev cur)"
  by (simp add: zip_map_map case_prod_unfold)

lemma pair_energy_confident:
  "pair_energy (map (apply_thresh t) prev) (map (apply_thresh t) cur)
     = mean_confident_displacement t prev cur"
  by (simp add: pair_energy_def mean_confident_displacement_def nanmean_def map2_masked
      vals_masked_pairs confident_pairs_def)

lemma mean_confident_none:
  "confident_pairs t prev cur = [] \<Longrightarrow> mean_confident_displacement t prev cur = NaN"
  by (simp add: mean_confident_displacement_def nanmean_def)

lemma map2_tl_nth:
  assumes "Suc i < length xs"
  shows "map2 f xs (tl xs) ! i = f (xs ! i) (xs ! Suc i)"
  using assms by (simp add: nth_tl)

text \<open>
  Claim C7. Take a table of predictions that reshapes into rows of keypoints, and two
  consecutive rows of it. The estimator returns one energy per row, and the energy at
  the second of the two rows is the mean of the displacements of the keypoints that
  are below the threshold in neither row, so that a keypoint below the threshold in
  either row has no part in the sum nor in the count; when every keypoint is below
  the threshold in one of the two rows the energy is not-a-number.
\<close>

theorem low_confidence_keypoints_excluded:
  assumes "those_rows (map triples df) = Some rows" and "Suc i < length rows"
  shows "\<exists>me. compute_motion_energy_from_predection_df df likelihood_thresh = Inr me
           \<and> length me = length rows
           \<and> me ! Suc i = mean_confident_displacement likelihood_thresh (rows ! i) (rows ! Suc i)
           \<and> (confident_pairs likelihood_thresh (rows ! i) (rows ! Suc i) = []
                \<longrightarrow> me ! Suc i = NaN)"
proof -
  let ?kps = "map (map (apply_thresh likelihood_thresh)) rows"
  let ?me = "Val 0 # map2 pair_energy ?kps (tl ?kps)"
  have "df \<noteq> []"
    using assms by auto
  then have res: "compute_motion_energy_from_predection_df df likelihood_thresh = Inr ?me"
    using assms(1) by (simp add: compute_motion_energy_from_predection_df_def Let_def)
  have len: "length ?me = length rows"
    using assms(2) by simp
  have "?me ! Suc i = map2 pair_energy ?kps (tl ?kps) ! i"
    by simp
  also have "\<dots> = pair_energy (?kps ! i) (?kps ! Suc i)"
    using assms(2) by (intro map2_tl_nth) simp
  also have "\<dots> = mean_confident_displacement likelihood_thresh (rows ! i) (rows ! Suc i)"
    using assms(2) by (simp add: pair_energy_confident)
  finally have at: "?me ! Suc i
      = mean_confident_displacement likelihood_thresh (rows ! i) (rows ! Suc i)" .
  show ?thesis
    using res len at mean_confident_none by (intro exI[of _ ?me]) simp
qed

lemma rows_two_keypoints:
  "those_rows (map triples two_keypoints_df)
     = Some [[(Val 0, Val 0, Val 1), (Val 1, Val 1, Val 1)],
             [(Val 3, Val 4, Val 1), (Val 9, Val 9, Val (1 / 10))]]"
  by (simp add: two_keypoints_df_def)

lemma rows_low_conf:
  "those_rows (map triples low_conf_df)
     = Some [[(Val 1, Val 1, Val (1 / 10))], [(Val 2, Val 2, Val (1 / 10))],
             [(Val 3, Val 3, Val (1 / 10))]]"
  by (simp add: low_conf_df_def)

lemma sqrt_25: "sqrt 25 = 5"
  by (rule real_sqrt_unique) simp_all

lemma mean_two_keypoints:
  "mean_confident_displacement (9 / 10)
     [(Val 0, Val 0, Val 1), (Val 1, Val 1, Val 1)]
     [(Val 3, Val 4, Val 1), (Val 9, Val 9, Val (1 / 10))] = Val 5"
  by (simp add: mean_confident_displacement_def confident_pairs_def below_thresh_def
      keypoint_xy_def displacement_def nanmean_def sqrt_25)

lemma no_confident_pair_low_conf:
  "confident_pairs (9 / 10) [(Val 1, Val 1, Val (1 / 10))] [(Val 2, Val 2, Val (1 / 10))] = []"
  by (simp add: confident_pairs_def below_thresh_def)

theorem low_confidence_keypoints_excluded_witness:
  "those_rows (map triples two_keypoints_df)
     = Some [[(Val 0, Val 0, Val 1), (Val 1, Val 1, Val 1)],
             [(Val 3, Val 4, Val 1), (Val 9, Val 9, Val (1 / 10))]]
   \<and> Suc 0 < length [[(Val 0, Val 0, Val 1), (Val 1, Val 1, Val (1::real))],
                     [(Val 3, Val 4, Val 1), (Val 9, Val 9, Val (1 / 10))]]
   \<and> (\<exists>me. compute_motion_energy_from_predection_df two_keypoints_df (9 / 10) = Inr me
          \<and> length me = 2 \<and> me ! 1 = Val 5)
   \<and> those_rows (map triples low_conf_df)
     = Some [[(Val 1, Val 1, Val (1 / 10))], [(Val 2, Val 2, Val (1 / 10))],
             [(Val 3, Val 3, Val (1 / 10))]]
   \<and> confident_pairs (9 / 10) [(Val 1, Val 1, Val (1 / 10))] [(Val 2, Val 2, Val (1 / 10))] = []
   \<and> (\<exists>me. compute_motion_energy_from_predection_df low_conf_df (9 / 10) = Inr me
          \<and> length me = 3 \<and> me ! 1 = NaN)"
proof -
  have two: "\<exists>me. compute_motion_energy_from_predection_df two_keypoints_df (9 / 10) = Inr me
          \<and> length me = 2 \<and> me ! 1 = Val 5"
    using low_confidence_keypoints_excluded[OF rows_two_keypoints, of 0 "9 / 10"]
    by (auto simp: mean_two_keypoints)
  have low: "\<exists>me. compute_motion_energy_from_predection_df low_conf_df (9 / 10) = Inr me
          \<and> length me = 3 \<and> me ! 1 = NaN"
    using low_confidence_keypoints_excluded[OF rows_low_conf, of 0 "9 / 10"]
      no_confident_pair_low_conf
    by auto
  from two low show ?thesis
    by (simp add: rows_two_keypoints rows_low_conf no_confident_pair_low_conf)
qed

end
